theory Spec2Isabelle
  imports Complex_Main "HOL-Library.Word"
begin

section \<open>VisionLabel: the image annotation pipeline of \<^verbatim>\<open>app.py\<close>\<close>

text \<open>
  The development follows \<^verbatim>\<open>app.py\<close> top to bottom: the helpers
  (\<^verbatim>\<open>allowed_file\<close>, \<^verbatim>\<open>unique_name\<close>, \<^verbatim>\<open>pil_auto_prepare\<close>,
  \<^verbatim>\<open>draw_label_box\<close>) and the route \<^verbatim>\<open>upload\<close>.

  Conventions of the embedding.
  \<^item> The numbers of a detection result are Python numbers: a \<^verbatim>\<open>float\<close> is an IEEE 754
    double, whose products and sums are rounded to the nearest double, and an \<^verbatim>\<open>int\<close> is
    unbounded. The arithmetic inside \<^verbatim>\<open>draw_label_box\<close> is on the rational values of
    finite coordinates and font metrics.
  \<^item> A Python \<^verbatim>\<open>dict\<close> read with \<^verbatim>\<open>.get\<close> is a record of optional fields when its
    keys are fixed, and an association list when its emptiness is tested.
  \<^item> Every exception of the source is a value: \<open>Inl\<close> of a sum, or a constructor of the
    response.
  \<^item> What lives outside the file (Pillow's codecs and rasterizer, the font files, the
    Rekognition client, werkzeug's sanitizer, the clock and the random source) is a field of
    the record \<open>environ\<close> or of \<open>world\<close>.
\<close>

subsection \<open>Python numbers\<close>

type_synonym num = rat

text \<open>
  A double is a finite value (a rational of the form \<open>m * 2 ^ q\<close> with \<open>\<bar>m\<bar> < 2 ^ 53\<close>
  and \<open>- 1074 \<le> q\<close>, below \<open>2 ^ 1024\<close> in magnitude; \<open>Finite 0\<close> is the positive zero), the
  negative zero, an infinity, or a NaN.
\<close>

datatype pyfloat = Finite rat | NegZero | PosInf | NegInf | NaN

datatype pynum = PyInt int | PyFloat pyfloat

definition pow2 :: "int \<Rightarrow> rat" where
  "pow2 e = (if 0 \<le> e then 2 ^ nat e else 1 / 2 ^ nat (- e))"

definition pow10 :: "int \<Rightarrow> rat" where
  "pow10 e = (if 0 \<le> e then 10 ^ nat e else 1 / 10 ^ nat (- e))"

text \<open>The nearest integer, a tie going to the even one.\<close>

definition round_half_even :: "rat \<Rightarrow> int" where
  "round_half_even q =
     (let f = \<lfloor>q\<rfloor>; d = q - of_int f
      in if d < 1 / 2 then f else if 1 / 2 < d then f + 1 else if even f then f else f + 1)"

text \<open>
  The binary and the decimal exponent of a positive rational: the largest \<open>e\<close> with
  \<open>2 ^ e \<le> x\<close> (with \<open>10 ^ e \<le> x\<close>), found by bisection in a range that contains the
  exponents of all doubles.
\<close>

definition ilog2 :: "rat \<Rightarrow> int" where
  "ilog2 x = foldl (\<lambda>lo d. if pow2 (lo + d) \<le> x then lo + d else lo) (- 2048)
               [2048, 1024, 512, 256, 128, 64, 32, 16, 8, 4, 2, 1]"

definition ilog10 :: "rat \<Rightarrow> int" where
  "ilog10 x = foldl (\<lambda>lo d. if pow10 (lo + d) \<le> x then lo + d else lo) (- 512)
                [512, 256, 128, 64, 32, 16, 8, 4, 2, 1]"

text \<open>
  Rounding to the nearest double, ties to even: 53 significant bits, the exponent of the
  last bit not below \<open>- 1074\<close> (subnormal numbers), an infinity from \<open>2 ^ 1024\<close> on, a
  signed zero when the value rounds to nothing.
\<close>

definition round_double :: "rat \<Rightarrow> pyfloat" where
  "round_double x =
     (if x = 0 then Finite 0
      else
        let e = ilog2 \<bar>x\<bar>;
            q = max (e - 52) (- 1074);
            m = round_half_even (\<bar>x\<bar> / pow2 q);
            y = of_int m * pow2 q
        in if pow2 1024 \<le> y then (if x < 0 then NegInf else PosInf)
           else if m = 0 then (if x < 0 then NegZero else Finite 0)
           else Finite (if x < 0 then - y else y))"

text \<open>The rationals that are doubles: rounding leaves them as they are.\<close>

definition is_double :: "rat \<Rightarrow> bool" where
  "is_double x \<longleftrightarrow> round_double x = Finite x"

text \<open>The float a decimal literal of the source denotes.\<close>

definition float_lit :: "rat \<Rightarrow> pyfloat" where
  "float_lit d = round_double d"

text \<open>
  The conversion of an \<^verbatim>\<open>int\<close> that multiplies a float. (The sizes of a Pillow image are
  C integers, far below the bound from which Python refuses the conversion.)
\<close>

definition float_of_nat :: "nat \<Rightarrow> pyfloat" where
  "float_of_nat n = round_double (of_nat n)"

fun float_value :: "pyfloat \<Rightarrow> rat option" where
  "float_value (Finite x) = Some x"
| "float_value NegZero = Some 0"
| "float_value PosInf = None"
| "float_value NegInf = None"
| "float_value NaN = None"

fun negative :: "pyfloat \<Rightarrow> bool" where
  "negative (Finite x) = (x < 0)"
| "negative NegZero = True"
| "negative NegInf = True"
| "negative PosInf = False"
| "negative NaN = False"

text \<open>Multiplication and addition of floats.\<close>

definition fmul :: "pyfloat \<Rightarrow> pyfloat \<Rightarrow> pyfloat" where
  "fmul a b =
     (case (float_value a, float_value b) of
        (Some x, Some y) \<Rightarrow>
          if x * y = 0 then (if negative a \<noteq> negative b then NegZero else Finite 0)
          else round_double (x * y)
      | _ \<Rightarrow>
          if a = NaN \<or> b = NaN \<or> float_value a = Some 0 \<or> float_value b = Some 0 then NaN
          else if negative a \<noteq> negative b then NegInf
          else PosInf)"

definition fadd :: "pyfloat \<Rightarrow> pyfloat \<Rightarrow> pyfloat" where
  "fadd a b =
     (case (float_value a, float_value b) of
        (Some x, Some y) \<Rightarrow>
          if x + y = 0 then (if a = NegZero \<and> b = NegZero then NegZero else Finite 0)
          else round_double (x + y)
      | (Some x, None) \<Rightarrow> b
      | (None, Some y) \<Rightarrow> a
      | (None, None) \<Rightarrow> if a = b then a else NaN)"

subsection \<open>Numbers as text\<close>

definition digit_char :: "nat \<Rightarrow> char" where
  "digit_char d = ''0123456789'' ! d"

fun str_nat :: "nat \<Rightarrow> string" where
  "str_nat n = (if n < 10 then [digit_char n] else str_nat (n div 10) @ [digit_char (n mod 10)])"

declare str_nat.simps [simp del]

definition zero_pad :: "nat \<Rightarrow> nat \<Rightarrow> string" where
  "zero_pad k n = (let s = str_nat n in replicate (k - length s) CHR ''0'' @ s)"

definition str_int :: "int \<Rightarrow> string" where
  "str_int i = (if i < 0 then ''-'' else []) @ str_nat (nat \<bar>i\<bar>)"

text \<open>
  \<^verbatim>\<open>round(x, 1)\<close> of a float: the exact value is rounded to the nearest multiple of one
  tenth, a tie going to the even one, and the result is the double nearest to that decimal;
  the sign is kept when nothing is left; infinities and NaN are returned as they are.
\<close>

definition py_round1 :: "pyfloat \<Rightarrow> pyfloat" where
  "py_round1 a =
     (case a of
        Finite x \<Rightarrow>
          if x = 0 then a
          else
            let r = round_half_even (\<bar>x\<bar> * 10)
            in if r = 0 then (if x < 0 then NegZero else Finite 0)
               else round_double ((if x < 0 then - 1 else 1) * (of_int r / 10))
      | _ \<Rightarrow> a)"

text \<open>
  The \<^verbatim>\<open>repr\<close> of a float. Its digits are those of the shortest decimal that rounds to
  the float: \<open>decimal_of y n\<close> is the decimal with \<open>n\<close> significant digits nearest to \<open>y\<close>, as
  an integer and a power of ten, and seventeen digits always suffice.
\<close>

definition decimal_of :: "rat \<Rightarrow> nat \<Rightarrow> nat \<times> int" where
  "decimal_of y n = (let s = ilog10 y - int n + 1 in (nat (round_half_even (y / pow10 s)), s))"

definition round_trips :: "rat \<Rightarrow> nat \<Rightarrow> bool" where
  "round_trips y n = (case decimal_of y n of (c, s) \<Rightarrow> round_double (of_nat c * pow10 s) = Finite y)"

definition shortest_decimal :: "rat \<Rightarrow> nat \<times> int" where
  "shortest_decimal y =
     (case find (round_trips y) [1, 2, 3, 4, 5, 6, 7, 8, 9, 10, 11, 12, 13, 14, 15, 16] of
        Some n \<Rightarrow> decimal_of y n
      | None \<Rightarrow> decimal_of y 17)"

text \<open>
  The digits are laid out with an exponent when the decimal point would fall more than
  sixteen places right of the first digit or more than three places left of it, and in
  positional notation, with at least one digit after the point, otherwise.
\<close>

definition float_repr :: "pyfloat \<Rightarrow> string" where
  "float_repr a =
     (case a of
        NaN \<Rightarrow> ''nan''
      | PosInf \<Rightarrow> ''inf''
      | NegInf \<Rightarrow> ''-inf''
      | NegZero \<Rightarrow> ''-0.0''
      | Finite x \<Rightarrow>
          if x = 0 then ''0.0''
          else
            (case shortest_decimal \<bar>x\<bar> of (c, s) \<Rightarrow>
               let every = str_nat c;
                   decpt = int (length every) + s;
                   ds = rev (dropWhile (\<lambda>ch. ch = CHR ''0'') (rev every));
                   n = int (length ds)
               in (if x < 0 then ''-'' else []) @
                  (if decpt \<le> - 4 \<or> 16 < decpt
                   then hd ds # (if 1 < n then CHR ''.'' # tl ds else []) @ ''e'' @
                        (if decpt - 1 < 0 then ''-'' else ''+'') @ zero_pad 2 (nat \<bar>decpt - 1\<bar>)
                   else if decpt \<le> 0 then ''0.'' @ replicate (nat (- decpt)) CHR ''0'' @ ds
                   else if n \<le> decpt then ds @ replicate (nat (decpt - n)) CHR ''0'' @ ''.0''
                   else take (nat decpt) ds @ ''.'' @ drop (nat decpt) ds)))"

text \<open>\<^verbatim>\<open>round(c, 1)\<close> and the \<^verbatim>\<open>str\<close> of a number inside an f-string.\<close>

fun py_round :: "pynum \<Rightarrow> pynum" where
  "py_round (PyInt i) = PyInt i"
| "py_round (PyFloat a) = PyFloat (py_round1 a)"

fun py_str :: "pynum \<Rightarrow> string" where
  "py_str (PyInt i) = str_int i"
| "py_str (PyFloat a) = float_repr a"

subsection \<open>Detection results\<close>

text \<open>
  The \<^verbatim>\<open>BoundingBox\<close> dictionary: keys \<^verbatim>\<open>Left\<close>, \<^verbatim>\<open>Top\<close>, \<^verbatim>\<open>Width\<close>, \<^verbatim>\<open>Height\<close>,
  whose values are the floats of the service's JSON.
\<close>

type_synonym box = "(string \<times> pyfloat) list"

record det_instance =
  BoundingBox :: "box option"
  inst_Confidence :: "pynum option"

record label =
  Name :: "string option"
  Confidence :: "pynum option"
  Instances :: "det_instance list option"

text \<open>
  \<^verbatim>\<open>d.get(k, 0)\<close> on a bounding box. The default is the \<^verbatim>\<open>int\<close> 0; the products and sums
  it enters have the values of those of the float zero.
\<close>

definition box_get :: "box \<Rightarrow> string \<Rightarrow> pyfloat" where
  "box_get b k = (case map_of b k of None \<Rightarrow> Finite 0 | Some v \<Rightarrow> v)"

subsection \<open>Geometry (lines 160 to 164 of \<^verbatim>\<open>upload\<close>)\<close>

type_synonym xy_float = "pyfloat \<times> pyfloat \<times> pyfloat \<times> pyfloat"

type_synonym xy_box = "num \<times> num \<times> num \<times> num"

definition box_xy :: "nat \<Rightarrow> nat \<Rightarrow> box \<Rightarrow> xy_float" where
  "box_xy img_w img_h b =
     (let left = fmul (float_of_nat img_w) (box_get b ''Left'');
          top_y = fmul (float_of_nat img_h) (box_get b ''Top'');
          width = fmul (float_of_nat img_w) (box_get b ''Width'');
          height = fmul (float_of_nat img_h) (box_get b ''Height'')
      in (left, top_y, fadd left width, fadd top_y height))"

subsection \<open>The label text\<close>

text \<open>
  \<^verbatim>\<open>f"{label['Name']} ({round(label.get('Confidence', 0.0), 1)}%)"\<close>, for the name found.
\<close>

definition label_text :: "string \<Rightarrow> pynum option \<Rightarrow> string" where
  "label_text name conf =
     name @ '' ('' @
     py_str (py_round (case conf of None \<Rightarrow> PyFloat (Finite 0) | Some c \<Rightarrow> c)) @ ''%)''"

subsection \<open>\<^verbatim>\<open>draw_label_box\<close>\<close>

type_synonym rgb = "nat \<times> nat \<times> nat"

datatype font = TrueType string nat | DefaultFont

text \<open>The calls made on the \<^verbatim>\<open>ImageDraw\<close> object, in order.\<close>

datatype draw_cmd =
    Outline xy_box rgb nat
  | Filled xy_box rgb
  | Text "num \<times> num" string rgb font

text \<open>
  The two facts about fonts the function reads: whether \<^verbatim>\<open>ImageFont.truetype\<close> finds the
  file (it raises otherwise, and the bare \<^verbatim>\<open>except\<close> falls back to the default font), and
  the bounding box \<^verbatim>\<open>textbbox((0, 0), text, font)\<close> of a text.
\<close>

record fonts =
  truetype_found :: "string \<Rightarrow> nat \<Rightarrow> bool"
  textbbox :: "font \<Rightarrow> string \<Rightarrow> num \<times> num \<times> num \<times> num"

definition pad :: num where
  "pad = 4"

definition select_font :: "fonts \<Rightarrow> font" where
  "select_font fs =
     (if truetype_found fs ''arial.ttf'' 16 then TrueType ''arial.ttf'' 16 else DefaultFont)"

definition label_bg :: "xy_box \<Rightarrow> num \<Rightarrow> num \<Rightarrow> xy_box" where
  "label_bg xy text_w text_h =
     (case xy of (left, top_y, right, bottom) \<Rightarrow>
        let bg_left = left;
            bg_top = max (top_y - text_h - 2 * pad) 0;
            bg_right = left + text_w + 2 * pad;
            bg_bottom = bg_top + text_h + 2 * pad
        in (bg_left, bg_top, bg_right, bg_bottom))"

definition draw_label_box :: "fonts \<Rightarrow> xy_box \<Rightarrow> string \<Rightarrow> draw_cmd list" where
  "draw_label_box fs xy_box text =
     (let fnt = select_font fs;
          (x0, y0, text_w, text_h) = textbbox fs fnt text;
          bg = label_bg xy_box text_w text_h
      in [Outline xy_box (255, 0, 0) 3,
          Filled bg (255, 255, 255),
          Text (fst bg + pad, fst (snd bg) + pad) text (255, 0, 0) fnt])"

subsection \<open>The drawing loop of \<^verbatim>\<open>upload\<close>\<close>

text \<open>
  What can end an iteration. \<open>NonFinite\<close> is not an exception of Python: it marks a
  coordinate that has overflowed to an infinity or is a NaN, where the embedding stops
  (Pillow compares such coordinates and then converts them to C integers, which C leaves
  undefined).
\<close>

datatype py_error = KeyError string | ValueError string | NonFinite

text \<open>
  Pillow runs the calls of \<^verbatim>\<open>draw_label_box\<close> one after the other. A rectangle whose
  second corner lies left of or above its first corner raises \<^verbatim>\<open>ValueError\<close>, which
  leaves the function and the loop.
\<close>

definition rectangle_error :: "xy_box \<Rightarrow> py_error option" where
  "rectangle_error xy =
     (case xy of (x0, y0, x1, y1) \<Rightarrow>
        if x1 < x0 then Some (ValueError ''x1 must be greater than or equal to x0'')
        else if y1 < y0 then Some (ValueError ''y1 must be greater than or equal to y0'')
        else None)"

fun draw_error :: "draw_cmd \<Rightarrow> py_error option" where
  "draw_error (Outline xy c w) = rectangle_error xy"
| "draw_error (Filled xy c) = rectangle_error xy"
| "draw_error (Text p t c f) = None"

fun perform :: "draw_cmd list \<Rightarrow> py_error + draw_cmd list" where
  "perform [] = Inr []"
| "perform (c # cs) =
     (case draw_error c of
        Some e \<Rightarrow> Inl e
      | None \<Rightarrow> (case perform cs of Inl e \<Rightarrow> Inl e | Inr ds \<Rightarrow> Inr (c # ds)))"

definition finite_xy :: "xy_float \<Rightarrow> xy_box option" where
  "finite_xy xy =
     (case xy of (a, b, c, d) \<Rightarrow>
        (case (float_value a, float_value b, float_value c, float_value d) of
           (Some x0, Some y0, Some x1, Some y1) \<Rightarrow> Some (x0, y0, x1, y1)
         | _ \<Rightarrow> None))"

text \<open>
  One iteration of the inner loop. \<^verbatim>\<open>if not box: continue\<close> skips a missing box and an
  empty one; the coordinates are computed; \<^verbatim>\<open>label['Name']\<close> raises \<^verbatim>\<open>KeyError\<close> when
  the key is absent; \<^verbatim>\<open>draw_label_box\<close> is called last.
\<close>

definition draw_instance :: "fonts \<Rightarrow> nat \<Rightarrow> nat \<Rightarrow> label \<Rightarrow> det_instance \<Rightarrow> py_error + draw_cmd list" where
  "draw_instance fs img_w img_h lbl inst =
     (case BoundingBox inst of
        None \<Rightarrow> Inr []
      | Some b \<Rightarrow>
          if b = [] then Inr []
          else (case Name lbl of
                  None \<Rightarrow> Inl (KeyError ''Name'')
                | Some n \<Rightarrow>
                    (case finite_xy (box_xy img_w img_h b) of
                       None \<Rightarrow> Inl NonFinite
                     | Some xy \<Rightarrow> perform (draw_label_box fs xy (label_text n (Confidence lbl))))))"

fun draw_instances :: "fonts \<Rightarrow> nat \<Rightarrow> nat \<Rightarrow> label \<Rightarrow> det_instance list \<Rightarrow> py_error + draw_cmd list" where
  "draw_instances fs img_w img_h lbl [] = Inr []"
| "draw_instances fs img_w img_h lbl (inst # insts) =
     (case draw_instance fs img_w img_h lbl inst of
        Inl e \<Rightarrow> Inl e
      | Inr cs \<Rightarrow>
          (case draw_instances fs img_w img_h lbl insts of
             Inl e \<Rightarrow> Inl e
           | Inr ds \<Rightarrow> Inr (cs @ ds)))"

definition label_instances :: "label \<Rightarrow> det_instance list" where
  "label_instances lbl = (case Instances lbl of None \<Rightarrow> [] | Some is \<Rightarrow> is)"

fun draw_labels :: "fonts \<Rightarrow> nat \<Rightarrow> nat \<Rightarrow> label list \<Rightarrow> py_error + draw_cmd list" where
  "draw_labels fs img_w img_h [] = Inr []"
| "draw_labels fs img_w img_h (lbl # lbls) =
     (case draw_instances fs img_w img_h lbl (label_instances lbl) of
        Inl e \<Rightarrow> Inl e
      | Inr cs \<Rightarrow>
          (case draw_labels fs img_w img_h lbls of
             Inl e \<Rightarrow> Inl e
           | Inr ds \<Rightarrow> Inr (cs @ ds)))"

subsection \<open>\<^verbatim>\<open>allowed_file\<close>\<close>

text \<open>
  Strings are lists of 8-bit characters; \<^verbatim>\<open>str.lower\<close> is modelled on the ASCII
  letters, which is where it can produce a letter of an allowed extension.
\<close>

definition lower_char :: "char \<Rightarrow> char" where
  "lower_char c = (let n = (of_char c :: nat) in if 65 \<le> n \<and> n \<le> 90 then char_of (n + 32) else c)"

definition lower :: "string \<Rightarrow> string" where
  "lower s = map lower_char s"

definition ALLOWED_EXTENSIONS :: "string set" where
  "ALLOWED_EXTENSIONS = {''png'', ''jpg'', ''jpeg''}"

text \<open>\<^verbatim>\<open>s.rsplit(".", 1)[1]\<close> for a string that contains a dot: what follows the last dot.\<close>

definition after_last_dot :: "string \<Rightarrow> string" where
  "after_last_dot s = rev (takeWhile (\<lambda>c. c \<noteq> CHR ''.'') (rev s))"

definition allowed_file :: "string \<Rightarrow> bool" where
  "allowed_file filename \<longleftrightarrow>
     CHR ''.'' \<in> set filename \<and> lower (after_last_dot filename) \<in> ALLOWED_EXTENSIONS"

subsection \<open>\<^verbatim>\<open>unique_name\<close>\<close>

text \<open>\<^verbatim>\<open>str.rfind\<close> of one character: the last index, or \<open>-1\<close>.\<close>

fun rfind :: "string \<Rightarrow> char \<Rightarrow> int" where
  "rfind [] c = -1"
| "rfind (x # xs) c =
     (let r = rfind xs c in if 0 \<le> r then r + 1 else if x = c then 0 else -1)"

text \<open>
  The loop of \<^verbatim>\<open>genericpath._splitext\<close> that skips leading dots: does a character other
  than the dot occur at an index from \<open>filenameIndex\<close> up to \<open>dotIndex\<close> (excluded)?
\<close>

function skip_dots :: "string \<Rightarrow> nat \<Rightarrow> nat \<Rightarrow> bool" where
  "skip_dots p filenameIndex dotIndex =
     (if filenameIndex < dotIndex
      then (if p ! filenameIndex \<noteq> CHR ''.'' then True
            else skip_dots p (filenameIndex + 1) dotIndex)
      else False)"
  by pat_completeness auto
termination
  by (relation "measure (\<lambda>(p, filenameIndex, dotIndex). dotIndex - filenameIndex)") auto

declare skip_dots.simps [simp del]

text \<open>\<^verbatim>\<open>os.path.splitext\<close> (posixpath: the separator is the slash, there is no altsep).\<close>

definition splitext :: "string \<Rightarrow> string \<times> string" where
  "splitext p =
     (let sepIndex = rfind p CHR ''/''; dotIndex = rfind p CHR ''.''
      in if sepIndex < dotIndex \<and> skip_dots p (nat (sepIndex + 1)) (nat dotIndex)
         then (take (nat dotIndex) p, drop (nat dotIndex) p)
         else (p, []))"

record datetime =
  year :: nat
  month :: nat
  day :: nat
  hour :: nat
  minute :: nat
  second :: nat

text \<open>
  \<^verbatim>\<open>strftime('%Y%m%d-%H%M%S')\<close>. (For a year below 1000 the C library decides whether
  \<^verbatim>\<open>%Y\<close> is padded; the clock of \<^verbatim>\<open>utcnow\<close> is beyond.)
\<close>

definition strftime :: "datetime \<Rightarrow> string" where
  "strftime t =
     zero_pad 4 (year t) @ zero_pad 2 (month t) @ zero_pad 2 (day t) @ ''-'' @
     zero_pad 2 (hour t) @ zero_pad 2 (minute t) @ zero_pad 2 (second t)"

definition hex_char :: "nat \<Rightarrow> char" where
  "hex_char d = ''0123456789abcdef'' ! d"

fun hex_str :: "nat \<Rightarrow> nat \<Rightarrow> string" where
  "hex_str 0 n = []"
| "hex_str (Suc k) n = hex_str k (n div 16) @ [hex_char (n mod 16)]"

text \<open>\<^verbatim>\<open>uuid.uuid4().hex\<close>: the 128 bits as 32 lower-case hexadecimal digits.\<close>

definition uuid_hex :: "128 word \<Rightarrow> string" where
  "uuid_hex u = hex_str 32 (unat u)"

text \<open>What one call of \<^verbatim>\<open>unique_name\<close> reads from the clock and the random source.\<close>

record entropy =
  utcnow :: datetime
  uuid4 :: "128 word"

definition unique_name :: "(string \<Rightarrow> string) \<Rightarrow> entropy \<Rightarrow> string \<Rightarrow> string \<Rightarrow> string" where
  "unique_name secure_filename en original_name prefix =
     (let base = secure_filename original_name;
          (stem, ext) = splitext base
      in prefix @ stem @ ''_'' @ strftime (utcnow en) @ ''_'' @ take 8 (uuid_hex (uuid4 en)) @
         (if ext = [] then ''.jpg'' else ext))"

subsection \<open>Images\<close>

text \<open>
  A decoded Pillow image: its size, its pixels in row-major order, and the orientation tag
  (0x0112) of its EXIF data. The mode is that of the pixel buffer. The modes are those an
  8-bit PNG or JPEG without palette decodes to.
\<close>

type_synonym byte = "8 word"

datatype mode = L | LA | RGB | RGBA

datatype pixels =
    PixL "byte list"
  | PixLA "(byte \<times> byte) list"
  | PixRGB "(byte \<times> byte \<times> byte) list"
  | PixRGBA "(byte \<times> byte \<times> byte \<times> byte) list"

record image =
  im_size :: "nat \<times> nat"
  im_data :: pixels
  exif_orientation :: "nat option"

fun pixels_mode :: "pixels \<Rightarrow> mode" where
  "pixels_mode (PixL _) = L"
| "pixels_mode (PixLA _) = LA"
| "pixels_mode (PixRGB _) = RGB"
| "pixels_mode (PixRGBA _) = RGBA"

definition mode :: "image \<Rightarrow> mode" where
  "mode img = pixels_mode (im_data img)"

datatype transpose_method =
  FLIP_LEFT_RIGHT | FLIP_TOP_BOTTOM | ROTATE_90 | ROTATE_180 | ROTATE_270 | TRANSPOSE | TRANSVERSE

text \<open>The size of the transposed image, and the source pixel of each of its pixels.\<close>

fun transposed_size :: "transpose_method \<Rightarrow> nat \<times> nat \<Rightarrow> nat \<times> nat" where
  "transposed_size FLIP_LEFT_RIGHT (w, h) = (w, h)"
| "transposed_size FLIP_TOP_BOTTOM (w, h) = (w, h)"
| "transposed_size ROTATE_180 (w, h) = (w, h)"
| "transposed_size ROTATE_90 (w, h) = (h, w)"
| "transposed_size ROTATE_270 (w, h) = (h, w)"
| "transposed_size TRANSPOSE (w, h) = (h, w)"
| "transposed_size TRANSVERSE (w, h) = (h, w)"

fun source_xy :: "transpose_method \<Rightarrow> nat \<times> nat \<Rightarrow> nat \<times> nat \<Rightarrow> nat \<times> nat" where
  "source_xy FLIP_LEFT_RIGHT (w, h) (x, y) = (w - 1 - x, y)"
| "source_xy FLIP_TOP_BOTTOM (w, h) (x, y) = (x, h - 1 - y)"
| "source_xy ROTATE_180 (w, h) (x, y) = (w - 1 - x, h - 1 - y)"
| "source_xy ROTATE_90 (w, h) (x, y) = (w - 1 - y, x)"
| "source_xy ROTATE_270 (w, h) (x, y) = (y, h - 1 - x)"
| "source_xy TRANSPOSE (w, h) (x, y) = (y, x)"
| "source_xy TRANSVERSE (w, h) (x, y) = (w - 1 - y, h - 1 - x)"

definition source_indices :: "transpose_method \<Rightarrow> nat \<times> nat \<Rightarrow> nat list" where
  "source_indices m sz =
     (let (w', h') = transposed_size m sz
      in concat (map (\<lambda>y. map (\<lambda>x. let (sx, sy) = source_xy m sz (x, y) in sy * fst sz + sx)
                                 [0..<w']) [0..<h']))"

fun reindex :: "nat list \<Rightarrow> pixels \<Rightarrow> pixels" where
  "reindex is (PixL ps) = PixL (map (\<lambda>i. ps ! i) is)"
| "reindex is (PixLA ps) = PixLA (map (\<lambda>i. ps ! i) is)"
| "reindex is (PixRGB ps) = PixRGB (map (\<lambda>i. ps ! i) is)"
| "reindex is (PixRGBA ps) = PixRGBA (map (\<lambda>i. ps ! i) is)"

text \<open>\<^verbatim>\<open>Image.transpose(method)\<close>; the new image keeps the \<^verbatim>\<open>info\<close> of the old one.\<close>

definition transpose_im :: "transpose_method \<Rightarrow> image \<Rightarrow> image" where
  "transpose_im m img =
     img\<lparr>im_size := transposed_size m (im_size img),
         im_data := reindex (source_indices m (im_size img)) (im_data img)\<rparr>"

text \<open>
  \<^verbatim>\<open>ImageOps.exif_transpose\<close>: the orientation (1 when absent) selects a method; the
  transposed image has the tag removed; without a method the image is copied.
\<close>

definition orientation_method :: "nat \<Rightarrow> transpose_method option" where
  "orientation_method n =
     (if n = 2 then Some FLIP_LEFT_RIGHT
      else if n = 3 then Some ROTATE_180
      else if n = 4 then Some FLIP_TOP_BOTTOM
      else if n = 5 then Some TRANSPOSE
      else if n = 6 then Some ROTATE_270
      else if n = 7 then Some TRANSVERSE
      else if n = 8 then Some ROTATE_90
      else None)"

definition exif_transpose :: "image \<Rightarrow> image" where
  "exif_transpose img =
     (case orientation_method (case exif_orientation img of None \<Rightarrow> 1 | Some n \<Rightarrow> n) of
        None \<Rightarrow> img
      | Some m \<Rightarrow> (transpose_im m img)\<lparr>exif_orientation := None\<rparr>)"

text \<open>
  \<^verbatim>\<open>Image.convert("RGB")\<close>: a grey value is replicated into the three channels; an alpha
  channel is dropped.
\<close>

fun convert_RGB_pixels :: "pixels \<Rightarrow> pixels" where
  "convert_RGB_pixels (PixL ps) = PixRGB (map (\<lambda>v. (v, v, v)) ps)"
| "convert_RGB_pixels (PixLA ps) = PixRGB (map (\<lambda>(v, a). (v, v, v)) ps)"
| "convert_RGB_pixels (PixRGB ps) = PixRGB ps"
| "convert_RGB_pixels (PixRGBA ps) = PixRGB (map (\<lambda>(r, g, b, a). (r, g, b)) ps)"

definition convert_RGB :: "image \<Rightarrow> image" where
  "convert_RGB img = img\<lparr>im_data := convert_RGB_pixels (im_data img)\<rparr>"

text \<open>
  \<^verbatim>\<open>Image.paste\<close> with an \<^verbatim>\<open>L\<close> mask (libImaging's \<^verbatim>\<open>paste_mask_L\<close>): each channel is
  \<^verbatim>\<open>BLEND(a, out, in)\<close> for the mask value \<open>a\<close>, computed on unsigned integers.
\<close>

definition DIV255 :: "nat \<Rightarrow> nat" where
  "DIV255 a = (let tmp = a + 128 in (tmp div 256 + tmp) div 256)"

definition BLEND :: "byte \<Rightarrow> byte \<Rightarrow> byte \<Rightarrow> byte" where
  "BLEND a in1 in2 = of_nat (DIV255 (unat in1 * (255 - unat a) + unat in2 * unat a))"

definition paste_pixel :: "byte \<times> byte \<times> byte \<Rightarrow> byte \<times> byte \<times> byte \<times> byte \<Rightarrow> byte \<times> byte \<times> byte" where
  "paste_pixel bg px =
     (case bg of (r0, g0, b0) \<Rightarrow> case px of (r, g, b, a) \<Rightarrow>
        (BLEND a r0 r, BLEND a g0 g, BLEND a b0 b))"

text \<open>
  The \<^verbatim>\<open>RGBA\<close> branch of \<^verbatim>\<open>pil_auto_prepare\<close>: a new white \<^verbatim>\<open>RGB\<close> image of the same
  size (with no \<^verbatim>\<open>info\<close>), the source pasted on it through its own alpha band.
\<close>

definition flatten_white :: "nat \<times> nat \<Rightarrow> (byte \<times> byte \<times> byte \<times> byte) list \<Rightarrow> image" where
  "flatten_white sz ps =
     \<lparr>im_size = sz,
      im_data = PixRGB (map2 paste_pixel (replicate (fst sz * snd sz) (255, 255, 255)) ps),
      exif_orientation = None\<rparr>"

definition pil_auto_prepare :: "image \<Rightarrow> image" where
  "pil_auto_prepare pil_img0 =
     (let pil_img = exif_transpose pil_img0;
          pil_img = (if mode pil_img \<noteq> RGB \<and> mode pil_img \<noteq> RGBA then convert_RGB pil_img else pil_img)
      in case im_data pil_img of
           PixRGBA ps \<Rightarrow> flatten_white (im_size pil_img) ps
         | _ \<Rightarrow> pil_img)"

subsection \<open>The collaborators of \<^verbatim>\<open>upload\<close>\<close>

type_synonym bytes = "byte list"

text \<open>\<^verbatim>\<open>request.files\<close>: the entry \<^verbatim>\<open>"file"\<close>, when present, has a name and a stream.\<close>

record file_storage =
  filename :: string
  stream :: bytes

record request =
  files_file :: "file_storage option"

text \<open>The arguments and the result of \<^verbatim>\<open>rekognition.detect_labels\<close>.\<close>

record detect_request =
  Image_Bytes :: bytes
  MaxLabels :: nat
  MinConfidence :: nat

record detect_response =
  Labels :: "label list option"

text \<open>
  A \<^verbatim>\<open>BotoCoreError\<close> or \<^verbatim>\<open>ClientError\<close>: its \<^verbatim>\<open>str\<close>, and the entry
  \<^verbatim>\<open>response['Error']['Message']\<close> when it has one.
\<close>

record aws_error =
  error_message :: "string option"
  error_str :: string

text \<open>
  \<^verbatim>\<open>pil.save(path, quality=95)\<close> either writes the encoded bytes, or raises; what a
  failed save leaves at the path is Pillow's business and part of its result.
\<close>

datatype save_result = Saved bytes | SaveFailed string "bytes option"

text \<open>
  \<open>image_open\<close> stands for \<^verbatim>\<open>Image.open\<close> together with the loading of the pixel data
  that \<^verbatim>\<open>exif_transpose\<close> triggers: both happen inside the first \<^verbatim>\<open>try\<close> block, and
  either raises on bytes that are not an image; \<open>Inl\<close> carries the \<^verbatim>\<open>str\<close> of the
  exception. \<open>detect_labels\<close> answers \<open>Inl\<close> when the client raises a
  \<^verbatim>\<open>BotoCoreError\<close> or a \<^verbatim>\<open>ClientError\<close>.
\<close>

record environ =
  DRY_RUN :: bool
  secure_filename :: "string \<Rightarrow> string"
  image_open :: "bytes \<Rightarrow> string + image"
  image_save :: "string \<Rightarrow> image \<Rightarrow> save_result"
  detect_labels :: "detect_request \<Rightarrow> aws_error + detect_response"
  font_files :: fonts
  rasterize :: "draw_cmd \<Rightarrow> image \<Rightarrow> image"

record world =
  first_name :: entropy
  second_name :: entropy

text \<open>
  The state a request can change: the files of the upload folder. The trace records, in
  order, every file write and every call of the labeling service.
\<close>

datatype event = Wrote string bytes | Called detect_request

record state =
  files :: "string \<Rightarrow> bytes option"
  trace :: "event list"

datatype exn = Drawing py_error | SaveError string | FileNotFound string

text \<open>
  The answers of the route: a text with a status, the result page, an exception that
  leaves the route, and \<open>NotModelled\<close> where the embedding stops (see \<open>NonFinite\<close>).
\<close>

datatype response =
    Plain string nat
  | Rendered string string "label list"
  | Raised exn
  | NotModelled

definition UPLOAD_FOLDER :: string where
  "UPLOAD_FOLDER = ''static/uploads''"

text \<open>\<^verbatim>\<open>os.path.join\<close> of two components (posixpath).\<close>

definition path_join :: "string \<Rightarrow> string \<Rightarrow> string" where
  "path_join a b =
     (if b \<noteq> [] \<and> hd b = CHR ''/'' then b
      else if a = [] \<or> last a = CHR ''/'' then a @ b
      else a @ ''/'' @ b)"

definition write_file :: "string \<Rightarrow> bytes \<Rightarrow> state \<Rightarrow> state" where
  "write_file path b st = st\<lparr>files := (files st)(path \<mapsto> b), trace := trace st @ [Wrote path b]\<rparr>"

definition failed_save :: "string \<Rightarrow> bytes option \<Rightarrow> state \<Rightarrow> state" where
  "failed_save path residue st =
     (case residue of None \<Rightarrow> st | Some b \<Rightarrow> write_file path b st)"

subsection \<open>Detection (lines 118 to 150 of \<^verbatim>\<open>upload\<close>)\<close>

definition sample_labels :: "label list" where
  "sample_labels =
     [\<lparr>Name = Some ''SampleObject'',
       Confidence = Some (PyFloat (float_lit 99.1)),
       Instances = Some
         [\<lparr>BoundingBox = Some [(''Left'', float_lit 0.25), (''Top'', float_lit 0.25),
                               (''Width'', float_lit 0.5), (''Height'', float_lit 0.5)],
           inst_Confidence = Some (PyFloat (float_lit 99.1))\<rparr>]\<rparr>]"

definition aws_message :: "aws_error \<Rightarrow> string" where
  "aws_message e = (case error_message e of None \<Rightarrow> error_str e | Some m \<Rightarrow> m)"

definition detect :: "environ \<Rightarrow> bytes \<Rightarrow> state \<Rightarrow> (aws_error + label list) \<times> state" where
  "detect env image_bytes st =
     (if DRY_RUN env then (Inr sample_labels, st)
      else
        let rq = \<lparr>Image_Bytes = image_bytes, MaxLabels = 10, MinConfidence = 70\<rparr>;
            st' = st\<lparr>trace := trace st @ [Called rq]\<rparr>
        in case detect_labels env rq of
             Inl e \<Rightarrow> (Inl e, st')
           | Inr resp \<Rightarrow> (Inr (case Labels resp of None \<Rightarrow> [] | Some ls \<Rightarrow> ls), st'))"

subsection \<open>\<^verbatim>\<open>upload\<close>\<close>

text \<open>The part of \<^verbatim>\<open>upload\<close> after the detection: drawing and saving the labeled image.\<close>

definition annotate :: "environ \<Rightarrow> image \<Rightarrow> string \<Rightarrow> string \<Rightarrow> label list \<Rightarrow> state \<Rightarrow> response \<times> state" where
  "annotate env pil original_name labeled_name labels st =
     (case draw_labels (font_files env) (fst (im_size pil)) (snd (im_size pil)) labels of
        Inl NonFinite \<Rightarrow> (NotModelled, st)
      | Inl e \<Rightarrow> (Raised (Drawing e), st)
      | Inr cmds \<Rightarrow>
          (let drawn = foldl (\<lambda>im c. rasterize env c im) pil cmds;
               labeled_path = path_join UPLOAD_FOLDER labeled_name
           in (case image_save env labeled_path drawn of
                 SaveFailed e residue \<Rightarrow> (Raised (SaveError e), failed_save labeled_path residue st)
               | Saved b \<Rightarrow> (Rendered original_name labeled_name labels, write_file labeled_path b st))))"

definition upload :: "environ \<Rightarrow> world \<Rightarrow> request \<Rightarrow> state \<Rightarrow> response \<times> state" where
  "upload env w req st =
     (case files_file req of
        None \<Rightarrow> (Plain ''No file uploaded'' 400, st)
      | Some file \<Rightarrow>
          (if filename file = [] then (Plain ''No selected file'' 400, st)
           else if \<not> allowed_file (filename file)
           then (Plain ''Invalid file type. Only JPG and PNG allowed.'' 400, st)
           else
             (let original_name = unique_name (secure_filename env) (first_name w) (filename file) [];
                  labeled_name = unique_name (secure_filename env) (second_name w) (filename file) ''labeled_'';
                  save_path = path_join UPLOAD_FOLDER original_name
              in (case image_open env (stream file) of
                    Inl e \<Rightarrow> (Plain (''Image processing error: '' @ e) 400, st)
                  | Inr opened \<Rightarrow>
                      (let pil = pil_auto_prepare opened
                       in (case image_save env save_path pil of
                             SaveFailed e residue \<Rightarrow>
                               (Plain (''Image processing error: '' @ e) 400,
                                failed_save save_path residue st)
                           | Saved b \<Rightarrow>
                               (let st1 = write_file save_path b st
                                in (case files st1 save_path of
                                      None \<Rightarrow> (Raised (FileNotFound save_path), st1)
                                    | Some image_bytes \<Rightarrow>
                                        (case detect env image_bytes st1 of
                                           (Inl e, st2) \<Rightarrow>
                                             (Plain (''AWS Rekognition error: '' @ aws_message e) 500, st2)
                                         | (Inr labels, st2) \<Rightarrow>
                                             annotate env pil original_name labeled_name labels st2)))))))))"

subsection \<open>Reading numerals\<close>

text \<open>
  The number a string of decimal digits denotes, and the number a string of lower-case
  hexadecimal digits denotes; a character counts as its position in the list of digits.
\<close>

definition digit_value :: "char \<Rightarrow> nat" where
  "digit_value c = length (takeWhile (\<lambda>d. d \<noteq> c) ''0123456789'')"

definition dec_value :: "string \<Rightarrow> nat" where
  "dec_value s = foldl (\<lambda>a c. 10 * a + digit_value c) 0 s"

definition hex_digit_value :: "char \<Rightarrow> nat" where
  "hex_digit_value c = length (takeWhile (\<lambda>d. d \<noteq> c) ''0123456789abcdef'')"

definition hex_value :: "string \<Rightarrow> nat" where
  "hex_value s = foldl (\<lambda>a c. 16 * a + hex_digit_value c) 0 s"

subsection \<open>Test doubles\<close>

text \<open>
  A font set without \<^verbatim>\<open>arial.ttf\<close> whose default font is 6 pixels wide per character and
  11 pixels high; used where a statement is instantiated on concrete data.
\<close>

definition stub_fonts :: fonts where
  "stub_fonts =
     \<lparr>truetype_found = (\<lambda>name sz. False),
      textbbox = (\<lambda>f t. (0, 0, of_nat (6 * length t), 11))\<rparr>"

text \<open>The invariant of a \<^verbatim>\<open>datetime\<close> whose year has four digits.\<close>

definition four_digit_year :: "datetime \<Rightarrow> bool" where
  "four_digit_year t \<longleftrightarrow>
     1000 \<le> year t \<and> year t \<le> 9999 \<and> 1 \<le> month t \<and> month t \<le> 12 \<and> 1 \<le> day t \<and> day t \<le> 31 \<and>
     hour t < 24 \<and> minute t < 60 \<and> second t < 60"

definition stub_now :: datetime where
  "stub_now = \<lparr>year = 2024, month = 1, day = 2, hour = 3, minute = 4, second = 5\<rparr>"

text \<open>
  Collaborators for a remote configuration: the decoder rejects the empty stream and
  returns a two-pixel image otherwise, the encoder writes three bytes, the labeling service
  is throttled, the rasterizer leaves the image alone.
\<close>

definition stub_image :: image where
  "stub_image = \<lparr>im_size = (2, 1), im_data = PixRGB [(10, 20, 30), (40, 50, 60)], exif_orientation = None\<rparr>"

definition throttled :: aws_error where
  "throttled = \<lparr>error_message = Some ''Rate exceeded'', error_str = ''ThrottlingException''\<rparr>"

definition stub_env :: environ where
  "stub_env =
     \<lparr>DRY_RUN = False,
      secure_filename = (\<lambda>s. s),
      image_open = (\<lambda>b. if b = [] then Inl ''cannot identify image file'' else Inr stub_image),
      image_save = (\<lambda>path im. Saved [1, 2, 3]),
      detect_labels = (\<lambda>rq. Inl throttled),
      font_files = stub_fonts,
      rasterize = (\<lambda>c im. im)\<rparr>"

definition stub_world :: world where
  "stub_world =
     \<lparr>first_name = \<lparr>utcnow = stub_now, uuid4 = 1\<rparr>,
      second_name = \<lparr>utcnow = stub_now, uuid4 = 2\<rparr>\<rparr>"

definition empty_state :: state where
  "empty_state = \<lparr>files = Map.empty, trace = []\<rparr>"

definition upload_of :: "string \<Rightarrow> bytes \<Rightarrow> request" where
  "upload_of name content = \<lparr>files_file = Some \<lparr>filename = name, stream = content\<rparr>\<rparr>"

text \<open>The requests of the labeling service recorded in a trace.\<close>

fun calls :: "event list \<Rightarrow> detect_request list" where
  "calls [] = []"
| "calls (Wrote path b # es) = calls es"
| "calls (Called rq # es) = rq # calls es"

section \<open>Properties\<close>

subsection \<open>Evaluation\<close>

lemma floor_numeral_div: "\<lfloor>numeral a / numeral b :: rat\<rfloor> = numeral a div numeral b"
  using floor_divide_of_int_eq [of "numeral a" "numeral b", where 'a = rat] by simp

lemmas float_eval =
  pow2_def pow10_def round_half_even_def ilog2_def ilog10_def round_double_def float_lit_def
  float_of_nat_def fmul_def fadd_def is_double_def Let_def floor_numeral_div

lemmas repr_eval =
  decimal_of_def round_trips_def shortest_decimal_def float_repr_def py_round1_def
  str_nat.simps digit_char_def zero_pad_def str_int_def

subsection \<open>Geometry\<close>

lemma fmul_exact:
  "is_double (x * y) \<Longrightarrow> float_value (fmul (Finite x) (Finite y)) = Some (x * y)"
  by (simp add: fmul_def is_double_def)

lemma fadd_exact:
  "float_value a = Some x \<Longrightarrow> float_value b = Some y \<Longrightarrow> is_double (x + y) \<Longrightarrow>
   float_value (fadd a b) = Some (x + y)"
  by (simp add: fadd_def is_double_def)

lemma box_xy_3_by_3:
  "box_xy 3 3 [(''Left'', float_lit 0.1), (''Top'', float_lit 0.1),
               (''Width'', float_lit 0.2), (''Height'', float_lit 0.7)] =
     (Finite (1351079888211149 / 4503599627370496),
      Finite (1351079888211149 / 4503599627370496),
      Finite (4053239664633447 / 4503599627370496),
      Finite (2702159776422297 / 1125899906842624))"
  by (simp add: box_xy_def box_get_def float_eval)

text \<open>
  C1, as the code has it. For a bounding box with the floats \<open>l\<close>, \<open>t\<close>, \<open>w\<close>, \<open>h\<close> and an
  image of \<open>W\<close> by \<open>H\<close> pixels, left is the float product of \<open>W\<close> and \<open>l\<close>, top that of
  \<open>H\<close> and \<open>t\<close>, right the float sum of left and the float product of \<open>W\<close> and \<open>w\<close>,
  bottom the float sum of top and the float product of \<open>H\<close> and \<open>h\<close>: each product
  and each sum is rounded to the nearest double, and nothing restricts the fractions, so
  nothing is clamped. Where the sizes, the products and the sums are doubles themselves,
  the four values are exactly \<open>W * l\<close>, \<open>H * t\<close>, \<open>W * l + W * w\<close>, \<open>H * t + H * h\<close>. The
  box \<open>(0.25, 0.25, 0.5, 0.5)\<close> on an 800 by 600 image gives \<open>(200, 150, 600, 450)\<close>; the
  box \<open>(0.1, 0.1, 0.2, 0.7)\<close> on a 3 by 3 image gives the doubles that Python prints
  as 0.30000000000000004, 0.30000000000000004, 0.9000000000000001 and 2.3999999999999995.
\<close>

theorem box_xy_floats:
  assumes "map_of b ''Left'' = Some l" and "map_of b ''Top'' = Some t"
    and "map_of b ''Width'' = Some w" and "map_of b ''Height'' = Some h"
  shows "box_xy W H b =
           (fmul (float_of_nat W) l,
            fmul (float_of_nat H) t,
            fadd (fmul (float_of_nat W) l) (fmul (float_of_nat W) w),
            fadd (fmul (float_of_nat H) t) (fmul (float_of_nat H) h)) \<and>
         (\<forall>x y u v.
            l = Finite x \<and> t = Finite y \<and> w = Finite u \<and> h = Finite v \<and>
            is_double (of_nat W) \<and> is_double (of_nat H) \<and>
            is_double (of_nat W * x) \<and> is_double (of_nat H * y) \<and>
            is_double (of_nat W * u) \<and> is_double (of_nat H * v) \<and>
            is_double (of_nat W * x + of_nat W * u) \<and> is_double (of_nat H * y + of_nat H * v) \<longrightarrow>
            finite_xy (box_xy W H b) =
              Some (of_nat W * x, of_nat H * y, of_nat W * x + of_nat W * u, of_nat H * y + of_nat H * v)) \<and>
         box_xy 800 600 [(''Left'', float_lit 0.25), (''Top'', float_lit 0.25),
                         (''Width'', float_lit 0.5), (''Height'', float_lit 0.5)] =
           (Finite 200, Finite 150, Finite 600, Finite 450) \<and>
         box_xy 3 3 [(''Left'', float_lit 0.1), (''Top'', float_lit 0.1),
                     (''Width'', float_lit 0.2), (''Height'', float_lit 0.7)] =
           (Finite (1351079888211149 / 4503599627370496),
            Finite (1351079888211149 / 4503599627370496),
            Finite (4053239664633447 / 4503599627370496),
            Finite (2702159776422297 / 1125899906842624))"
proof -
  have eq: "box_xy W H b =
           (fmul (float_of_nat W) l,
            fmul (float_of_nat H) t,
            fadd (fmul (float_of_nat W) l) (fmul (float_of_nat W) w),
            fadd (fmul (float_of_nat H) t) (fmul (float_of_nat H) h))"
    using assms by (simp add: box_xy_def box_get_def Let_def)
  have exact: "finite_xy (box_xy W H b) =
      Some (of_nat W * x, of_nat H * y, of_nat W * x + of_nat W * u, of_nat H * y + of_nat H * v)"
    if "l = Finite x" "t = Finite y" "w = Finite u" "h = Finite v"
      and W: "is_double (of_nat W)" and H: "is_double (of_nat H)"
      and p: "is_double (of_nat W * x)" "is_double (of_nat H * y)"
        "is_double (of_nat W * u)" "is_double (of_nat H * v)"
      and s: "is_double (of_nat W * x + of_nat W * u)" "is_double (of_nat H * y + of_nat H * v)"
    for x y u v
  proof -
    have fw: "float_of_nat W = Finite (of_nat W)" and fh: "float_of_nat H = Finite (of_nat H)"
      using W H by (simp_all add: float_of_nat_def is_double_def)
    note m = p [THEN fmul_exact]
    from m s show ?thesis
      unfolding eq fw fh that(1-4) finite_xy_def
      by (simp add: fadd_exact)
  qed
  have inst: "box_xy 800 600 [(''Left'', float_lit 0.25), (''Top'', float_lit 0.25),
                         (''Width'', float_lit 0.5), (''Height'', float_lit 0.5)] =
           (Finite 200, Finite 150, Finite 600, Finite 450)"
    by (simp add: box_xy_def box_get_def float_eval)
  from eq exact inst box_xy_3_by_3 show ?thesis
    by blast
qed

text \<open>
  An instance with a negative fraction and one above 1: the box leaves the canvas on both
  sides.
\<close>

theorem box_xy_floats_witness:
  "box_xy 800 600 [(''Left'', Finite (- 1 / 2)), (''Top'', Finite (1 / 4)),
                   (''Width'', Finite 2), (''Height'', Finite (1 / 2))] =
     (fmul (float_of_nat 800) (Finite (- 1 / 2)),
      fmul (float_of_nat 600) (Finite (1 / 4)),
      fadd (fmul (float_of_nat 800) (Finite (- 1 / 2))) (fmul (float_of_nat 800) (Finite 2)),
      fadd (fmul (float_of_nat 600) (Finite (1 / 4))) (fmul (float_of_nat 600) (Finite (1 / 2)))) \<and>
   finite_xy (box_xy 800 600 [(''Left'', Finite (- 1 / 2)), (''Top'', Finite (1 / 4)),
                              (''Width'', Finite 2), (''Height'', Finite (1 / 2))]) =
     Some (- 400, 150, 1200, 450)"
proof -
  let ?b = "[(''Left'', Finite (- 1 / 2)), (''Top'', Finite (1 / 4)),
             (''Width'', Finite 2), (''Height'', Finite (1 / 2))]"
  note t = box_xy_floats [of ?b "Finite (- 1 / 2)" "Finite (1 / 4)" "Finite 2" "Finite (1 / 2)" 800 600]
  have k: "map_of ?b ''Left'' = Some (Finite (- 1 / 2))" "map_of ?b ''Top'' = Some (Finite (1 / 4))"
    "map_of ?b ''Width'' = Some (Finite 2)" "map_of ?b ''Height'' = Some (Finite (1 / 2))"
    by simp_all
  have d: "is_double (of_nat 800)" "is_double (of_nat 600)"
    "is_double (of_nat 800 * (- 1 / 2))" "is_double (of_nat 600 * (1 / 4))"
    "is_double (of_nat 800 * 2)" "is_double (of_nat 600 * (1 / 2))"
    "is_double (of_nat 800 * (- 1 / 2) + of_nat 800 * 2)"
    "is_double (of_nat 600 * (1 / 4) + of_nat 600 * (1 / 2))"
    by (simp_all add: float_eval)
  from t [OF k] have 1: "box_xy 800 600 ?b =
     (fmul (float_of_nat 800) (Finite (- 1 / 2)),
      fmul (float_of_nat 600) (Finite (1 / 4)),
      fadd (fmul (float_of_nat 800) (Finite (- 1 / 2))) (fmul (float_of_nat 800) (Finite 2)),
      fadd (fmul (float_of_nat 600) (Finite (1 / 4))) (fmul (float_of_nat 600) (Finite (1 / 2))))"
    by blast
  from t [OF k] d have "finite_xy (box_xy 800 600 ?b) =
      Some (of_nat 800 * (- 1 / 2), of_nat 600 * (1 / 4), of_nat 800 * (- 1 / 2) + of_nat 800 * 2,
            of_nat 600 * (1 / 4) + of_nat 600 * (1 / 2))"
    by blast
  then have 2: "finite_xy (box_xy 800 600 ?b) = Some (- 400, 150, 1200, 450)"
    by simp
  from 1 2 show ?thesis
    by blast
qed

text \<open>
  The values are not the exact products and sums in general. On a 3 by 3 image the box
  \<open>(0.1, 0.1, 0.2, 0.7)\<close> gives 0.30000000000000004, 0.30000000000000004,
  0.9000000000000001 and 2.3999999999999995; left is neither three times the float 0.1
  nor three tenths.
\<close>

theorem box_xy_rounds:
  "box_xy 3 3 [(''Left'', float_lit 0.1), (''Top'', float_lit 0.1),
               (''Width'', float_lit 0.2), (''Height'', float_lit 0.7)] =
     (Finite (1351079888211149 / 4503599627370496),
      Finite (1351079888211149 / 4503599627370496),
      Finite (4053239664633447 / 4503599627370496),
      Finite (2702159776422297 / 1125899906842624)) \<and>
   float_lit 0.1 = Finite (3602879701896397 / 36028797018963968) \<and>
   (1351079888211149 / 4503599627370496 :: rat) \<noteq> 3 * (3602879701896397 / 36028797018963968) \<and>
   (1351079888211149 / 4503599627370496 :: rat) \<noteq> 3 * 0.1"
proof -
  have "float_lit 0.1 = Finite (3602879701896397 / 36028797018963968)"
    by (simp add: float_eval)
  moreover have "(1351079888211149 / 4503599627370496 :: rat) \<noteq> 3 * (3602879701896397 / 36028797018963968)"
    by simp
  moreover have "(1351079888211149 / 4503599627370496 :: rat) \<noteq> 3 * 0.1"
    by simp
  ultimately show ?thesis
    using box_xy_3_by_3 by blast
qed

subsection \<open>The label background\<close>

text \<open>
  C9. \<^verbatim>\<open>draw_label_box\<close> draws the outline, then a filled rectangle, then the text. The
  filled rectangle starts at the box's left edge, is as wide as the text plus twice the
  padding of 4 and as high as the text plus twice the padding; its top edge is
  \<open>max (top - text_h - 8) 0\<close>, hence never negative; when the box's top is at least
  \<open>text_h + 8\<close>, its bottom edge is the box's top edge. Its right and bottom edges are these
  sums, whatever the size of the canvas.
\<close>

theorem draw_label_box_background:
  assumes "textbbox fs (select_font fs) text = (x0, y0, text_w, text_h)"
  shows "\<exists>bg_top.
           draw_label_box fs (left, top_y, right, bottom) text =
             [Outline (left, top_y, right, bottom) (255, 0, 0) 3,
              Filled (left, bg_top, left + text_w + 2 * 4, bg_top + text_h + 2 * 4) (255, 255, 255),
              Text (left + 4, bg_top + 4) text (255, 0, 0) (select_font fs)] \<and>
           bg_top = max (top_y - text_h - 2 * 4) 0 \<and>
           0 \<le> bg_top \<and>
           (text_h + 2 * 4 \<le> top_y \<longrightarrow> bg_top + text_h + 2 * 4 = top_y)"
  using assms by (simp add: draw_label_box_def label_bg_def pad_def Let_def max_def)

text \<open>
  A box at the right edge of a canvas 100 pixels wide: the background ends at column 218.
\<close>

theorem draw_label_box_background_witness:
  "\<exists>bg_top.
     draw_label_box stub_fonts (90, 150, 95, 160) ''SampleObject (99.1%)'' =
       [Outline (90, 150, 95, 160) (255, 0, 0) 3,
        Filled (90, bg_top, 218, bg_top + 19) (255, 255, 255),
        Text (94, bg_top + 4) ''SampleObject (99.1%)'' (255, 0, 0) DefaultFont] \<and>
     bg_top = 131 \<and> bg_top + 19 = 150"
  using draw_label_box_background [of stub_fonts "''SampleObject (99.1%)''" 0 0 120 11 90 150 95 160]
  by (simp add: stub_fonts_def select_font_def)

subsection \<open>The drawing loop\<close>

text \<open>
  What the loop does with the entries it reads through \<^verbatim>\<open>.get\<close>. An instance without a
  bounding box, or with an empty one, draws nothing and raises nothing, whatever the label.
\<close>

lemma draw_instance_no_box:
  "BoundingBox inst = None \<or> BoundingBox inst = Some [] \<Longrightarrow> draw_instance fs W H lbl inst = Inr []"
  by (auto simp: draw_instance_def)

text \<open>A coordinate missing from the box enters the products as 0.\<close>

lemma box_xy_defaults:
  "box_xy W H b =
     (let l = (case map_of b ''Left'' of None \<Rightarrow> Finite 0 | Some v \<Rightarrow> v);
          t = (case map_of b ''Top'' of None \<Rightarrow> Finite 0 | Some v \<Rightarrow> v);
          w = (case map_of b ''Width'' of None \<Rightarrow> Finite 0 | Some v \<Rightarrow> v);
          h = (case map_of b ''Height'' of None \<Rightarrow> Finite 0 | Some v \<Rightarrow> v)
      in (fmul (float_of_nat W) l, fmul (float_of_nat H) t,
          fadd (fmul (float_of_nat W) l) (fmul (float_of_nat W) w),
          fadd (fmul (float_of_nat H) t) (fmul (float_of_nat H) h)))"
  by (simp add: box_xy_def box_get_def Let_def)

lemma box_xy_only_left:
  "box_xy 800 600 [(''Left'', Finite (1 / 2))] = (Finite 400, Finite 0, Finite 400, Finite 0)"
  by (simp add: box_xy_def box_get_def float_eval)

text \<open>A missing confidence is written \<open>0.0\<close>; an \<^verbatim>\<open>int\<close> is written without a point.\<close>

lemma label_text_no_confidence: "label_text n None = n @ '' (0.0%)''"
  by (simp add: label_text_def py_round1_def float_repr_def)

lemma label_text_int: "label_text ''Cat'' (Some (PyInt 99)) = ''Cat (99%)''"
  by (simp add: label_text_def str_int_def str_nat.simps digit_char_def)

lemma label_text_negative_zero:
  "label_text ''Cat'' (Some (PyFloat (Finite (- 1 / 32)))) = ''Cat (-0.0%)''"
  by (simp add: label_text_def py_round1_def float_repr_def round_half_even_def Let_def floor_numeral_div)

text \<open>
  A label with a name and a box of negative width: the outline is the first call, and it
  raises.
\<close>

lemma draw_loop_inverted_box:
  "draw_labels stub_fonts 800 600
     [\<lparr>Name = Some ''Cat'', Confidence = None,
       Instances = Some
         [\<lparr>BoundingBox = Some [(''Left'', Finite (1 / 2)), (''Top'', Finite (1 / 4)),
                               (''Width'', Finite (- 1 / 4)), (''Height'', Finite (1 / 2))],
           inst_Confidence = None\<rparr>]\<rparr>] =
   Inl (ValueError ''x1 must be greater than or equal to x0'')"
  by (simp add: label_instances_def draw_instance_def box_xy_def box_get_def float_eval
      finite_xy_def draw_label_box_def rectangle_error_def stub_fonts_def)

text \<open>
  C10 on a label without \<^verbatim>\<open>Name\<close> whose instance has a bounding box: \<^verbatim>\<open>Name\<close> is the one
  key the loop reads by subscript, and the loop ends with \<^verbatim>\<open>KeyError\<close> instead of
  skipping the entry or drawing it with a default.
\<close>

theorem draw_loop_missing_name:
  "draw_labels stub_fonts 800 600
     [\<lparr>Name = None, Confidence = Some (PyFloat (Finite 90)),
       Instances = Some [\<lparr>BoundingBox = Some [(''Left'', Finite (1 / 4))], inst_Confidence = None\<rparr>]\<rparr>] =
   Inl (KeyError ''Name'')"
  by (simp add: draw_instance_def label_instances_def)

subsection \<open>Artifact names\<close>

lemma digit_char_in: "d < 10 \<Longrightarrow> digit_char d \<in> set ''0123456789''"
proof -
  assume "d < 10"
  then have "d = 0 \<or> d = 1 \<or> d = 2 \<or> d = 3 \<or> d = 4 \<or> d = 5 \<or> d = 6 \<or> d = 7 \<or> d = 8 \<or> d = 9"
    by arith
  then show ?thesis
    by (elim disjE) (simp_all add: digit_char_def)
qed

lemma str_nat_digits: "set (str_nat n) \<subseteq> set ''0123456789''"
proof (induction n rule: str_nat.induct)
  case (1 n)
  show ?case
  proof (cases "n < 10")
    case True
    then show ?thesis
      using digit_char_in [of n] by (subst str_nat.simps) simp
  next
    case False
    have "n mod 10 < 10" by simp
    then have "digit_char (n mod 10) \<in> set ''0123456789''" by (rule digit_char_in)
    with False 1 show ?thesis
      by (subst str_nat.simps) simp
  qed
qed

lemma length_str_nat: "0 < k \<Longrightarrow> n < 10 ^ k \<Longrightarrow> length (str_nat n) \<le> k"
proof (induction k arbitrary: n)
  case 0
  then show ?case by simp
next
  case (Suc k)
  show ?case
  proof (cases "n < 10")
    case True
    then show ?thesis by (subst str_nat.simps) simp
  next
    case False
    with Suc.prems have k: "0 < k" by (cases k) auto
    from Suc.prems have "n div 10 < 10 ^ k" by (simp add: less_mult_imp_div_less mult.commute)
    with k have "length (str_nat (n div 10)) \<le> k" by (rule Suc.IH)
    with False show ?thesis by (subst str_nat.simps) simp
  qed
qed

lemma zero_pad_length: "0 < k \<Longrightarrow> n < 10 ^ k \<Longrightarrow> length (zero_pad k n) = k"
  using length_str_nat [of k n] by (simp add: zero_pad_def Let_def)

lemma zero_pad_digits: "set (zero_pad k n) \<subseteq> set ''0123456789''"
  using str_nat_digits [of n] by (auto simp: zero_pad_def Let_def)

lemma digit_value_digit_char: "d < 10 \<Longrightarrow> digit_value (digit_char d) = d"
proof -
  assume "d < 10"
  then have "d = 0 \<or> d = 1 \<or> d = 2 \<or> d = 3 \<or> d = 4 \<or> d = 5 \<or> d = 6 \<or> d = 7 \<or> d = 8 \<or> d = 9"
    by arith
  then show ?thesis
    by (elim disjE) (simp_all add: digit_char_def digit_value_def)
qed

lemma dec_value_snoc: "dec_value (xs @ [c]) = 10 * dec_value xs + digit_value c"
  by (simp add: dec_value_def)

lemma dec_value_str_nat: "dec_value (str_nat n) = n"
proof (induction n rule: str_nat.induct)
  case (1 n)
  show ?case
  proof (cases "n < 10")
    case True
    then show ?thesis
      using digit_value_digit_char [of n]
      by (subst str_nat.simps) (simp add: dec_value_def)
  next
    case False
    have "digit_value (digit_char (n mod 10)) = n mod 10"
      by (rule digit_value_digit_char) simp
    with False 1 show ?thesis
      by (subst str_nat.simps) (simp add: dec_value_snoc)
  qed
qed

lemma dec_value_zeros: "dec_value (replicate j CHR ''0'' @ s) = dec_value s"
  by (induction j) (simp_all add: dec_value_def digit_value_def)

lemma dec_value_zero_pad: "dec_value (zero_pad k n) = n"
  by (simp add: zero_pad_def Let_def dec_value_zeros dec_value_str_nat)

text \<open>
  The time stamp is made of six fields of 4, 2, 2, 2, 2 and 2 decimal digits that denote
  the year, the month, the day, the hour, the minute and the second, with a hyphen after
  the day.
\<close>

lemma strftime_fields:
  assumes "four_digit_year t"
  shows "\<exists>Y Mo D h mi s.
           strftime t = Y @ Mo @ D @ ''-'' @ h @ mi @ s \<and>
           length Y = 4 \<and> length Mo = 2 \<and> length D = 2 \<and>
           length h = 2 \<and> length mi = 2 \<and> length s = 2 \<and>
           set (Y @ Mo @ D @ h @ mi @ s) \<subseteq> set ''0123456789'' \<and>
           dec_value Y = year t \<and> dec_value Mo = month t \<and> dec_value D = day t \<and>
           dec_value h = hour t \<and> dec_value mi = minute t \<and> dec_value s = second t"
proof -
  have l: "length (zero_pad 4 (year t)) = 4" "length (zero_pad 2 (month t)) = 2"
    "length (zero_pad 2 (day t)) = 2" "length (zero_pad 2 (hour t)) = 2"
    "length (zero_pad 2 (minute t)) = 2" "length (zero_pad 2 (second t)) = 2"
    using assms by (simp_all add: four_digit_year_def zero_pad_length)
  have d: "set (zero_pad 4 (year t) @ zero_pad 2 (month t) @ zero_pad 2 (day t) @
      zero_pad 2 (hour t) @ zero_pad 2 (minute t) @ zero_pad 2 (second t)) \<subseteq> set ''0123456789''"
    using zero_pad_digits by auto
  have e: "strftime t = zero_pad 4 (year t) @ zero_pad 2 (month t) @ zero_pad 2 (day t) @ ''-'' @
      zero_pad 2 (hour t) @ zero_pad 2 (minute t) @ zero_pad 2 (second t)"
    by (simp add: strftime_def)
  from e l d dec_value_zero_pad show ?thesis
    by blast
qed

lemma hex_char_in: "d < 16 \<Longrightarrow> hex_char d \<in> set ''0123456789abcdef''"
proof -
  assume "d < 16"
  then have "d = 0 \<or> d = 1 \<or> d = 2 \<or> d = 3 \<or> d = 4 \<or> d = 5 \<or> d = 6 \<or> d = 7 \<or> d = 8 \<or> d = 9 \<or>
      d = 10 \<or> d = 11 \<or> d = 12 \<or> d = 13 \<or> d = 14 \<or> d = 15"
    by arith
  then show ?thesis
    by (elim disjE) (simp_all add: hex_char_def)
qed

lemma hex_str_digits: "set (hex_str k n) \<subseteq> set ''0123456789abcdef''"
proof (induction k arbitrary: n)
  case 0
  then show ?case by simp
next
  case (Suc k)
  have "hex_char (n mod 16) \<in> set ''0123456789abcdef''"
    by (rule hex_char_in) simp
  with Suc [of "n div 16"] show ?case by simp
qed

lemma length_hex_str: "length (hex_str k n) = k"
  by (induction k arbitrary: n) auto

lemma take_hex_str: "take k (hex_str (k + j) n) = hex_str k (n div 16 ^ j)"
proof (induction j arbitrary: n)
  case 0
  then show ?case by (simp add: length_hex_str)
next
  case (Suc j)
  have "take k (hex_str (k + Suc j) n) = take k (hex_str (k + j) (n div 16))"
    by (simp add: length_hex_str)
  also have "\<dots> = hex_str k (n div 16 div 16 ^ j)"
    by (rule Suc.IH)
  finally show ?case by (simp add: div_mult2_eq)
qed

lemma take8_uuid_hex: "take 8 (uuid_hex u) = hex_str 8 (unat u div 16 ^ 24)"
  using take_hex_str [of 8 24 "unat u"] by (simp add: uuid_hex_def)

lemma hex_str_last: "0 < k \<Longrightarrow> last (hex_str k n) = hex_char (n mod 16)"
  by (cases k) auto

lemma hex_digit_value_hex_char: "d < 16 \<Longrightarrow> hex_digit_value (hex_char d) = d"
proof -
  assume "d < 16"
  then have "d = 0 \<or> d = 1 \<or> d = 2 \<or> d = 3 \<or> d = 4 \<or> d = 5 \<or> d = 6 \<or> d = 7 \<or> d = 8 \<or> d = 9 \<or>
      d = 10 \<or> d = 11 \<or> d = 12 \<or> d = 13 \<or> d = 14 \<or> d = 15"
    by arith
  then show ?thesis
    by (elim disjE) (simp_all add: hex_char_def hex_digit_value_def)
qed

lemma hex_value_snoc: "hex_value (xs @ [c]) = 16 * hex_value xs + hex_digit_value c"
  by (simp add: hex_value_def)

lemma hex_value_hex_str: "hex_value (hex_str k n) = n mod 16 ^ k"
proof (induction k arbitrary: n)
  case 0
  then show ?case by (simp add: hex_value_def)
next
  case (Suc k)
  have "hex_digit_value (hex_char (n mod 16)) = n mod 16"
    by (rule hex_digit_value_hex_char) simp
  then have "hex_value (hex_str (Suc k) n) = 16 * (n div 16 mod 16 ^ k) + n mod 16"
    by (simp add: hex_value_snoc Suc.IH)
  also have "\<dots> = n mod (16 * 16 ^ k)"
    by (simp add: mod_mult2_eq)
  finally show ?case by simp
qed

text \<open>The eight digits denote the 32 leading bits of the 128 random bits.\<close>

lemma hex_value_take8: "hex_value (take 8 (uuid_hex u)) = unat u div 2 ^ 96"
proof -
  have "unat u < 2 ^ 128"
    using unsigned_less [of u, where 'a = nat] by simp
  then have "unat u div 16 ^ 24 < 16 ^ 8"
    by (simp add: less_mult_imp_div_less)
  then have "hex_value (take 8 (uuid_hex u)) = unat u div 16 ^ 24"
    by (simp add: take8_uuid_hex hex_value_hex_str)
  then show ?thesis
    by simp
qed

lemma hex_str_zero: "hex_str k 0 = replicate k CHR ''0''"
  by (induction k) (simp_all add: hex_char_def replicate_append_same)

subsection \<open>The extension\<close>

lemma rfind_ge: "- 1 \<le> rfind p c"
  by (induction p) (simp_all add: Let_def)

lemma rfind_none: "rfind p c = - 1 \<longleftrightarrow> c \<notin> set p"
proof (induction p)
  case Nil
  then show ?case by simp
next
  case (Cons x xs)
  show ?case
    using Cons.IH rfind_ge [of xs c] by (auto simp: Let_def)
qed

lemma rfind_split:
  "0 \<le> rfind p c \<Longrightarrow> \<exists>a b. p = a @ c # b \<and> c \<notin> set b \<and> rfind p c = int (length a)"
proof (induction p)
  case Nil
  then show ?case by simp
next
  case (Cons x xs)
  show ?case
  proof (cases "0 \<le> rfind xs c")
    case True
    with Cons.IH obtain a b where "xs = a @ c # b" "c \<notin> set b" "rfind xs c = int (length a)"
      by blast
    with True have "x # xs = (x # a) @ c # b \<and> c \<notin> set b \<and> rfind (x # xs) c = int (length (x # a))"
      by (simp add: Let_def)
    then show ?thesis by blast
  next
    case False
    with rfind_ge [of xs c] have n: "rfind xs c = - 1" by simp
    with Cons.prems have "x = c" by (simp add: Let_def split: if_splits)
    moreover from n have "c \<notin> set xs" by (simp add: rfind_none)
    ultimately have "x # xs = [] @ c # xs \<and> c \<notin> set xs \<and> rfind (x # xs) c = int (length ([] :: string))"
      using n by (simp add: Let_def)
    then show ?thesis by blast
  qed
qed

lemma rfind_last: "k < length p \<Longrightarrow> p ! k = c \<Longrightarrow> int k \<le> rfind p c"
proof -
  assume k: "k < length p" "p ! k = c"
  then have "c \<in> set p" by auto
  then have "rfind p c \<noteq> - 1" by (simp add: rfind_none)
  with rfind_ge [of p c] have "0 \<le> rfind p c" by simp
  then obtain a b where s: "p = a @ c # b" "c \<notin> set b" "rfind p c = int (length a)"
    using rfind_split by blast
  show ?thesis
  proof (rule ccontr)
    assume "\<not> int k \<le> rfind p c"
    with s have g: "length a < k" by simp
    with k s have "k - Suc (length a) < length b" by auto
    moreover from g s k have "b ! (k - Suc (length a)) = c"
      by (simp add: nth_append nth_Cons')
    ultimately have "c \<in> set b" by (metis nth_mem)
    with s show False by simp
  qed
qed

lemma skip_dots_iff:
  "skip_dots p i j \<longleftrightarrow> (\<exists>k. i \<le> k \<and> k < j \<and> p ! k \<noteq> CHR ''.'')"
proof (induction p i j rule: skip_dots.induct)
  case (1 p i j)
  show ?case
  proof (cases "i < j")
    case False
    then show ?thesis by (subst skip_dots.simps) auto
  next
    case True
    show ?thesis
    proof (cases "p ! i \<noteq> CHR ''.''")
      case d: True
      with True show ?thesis by (subst skip_dots.simps) auto
    next
      case d: False
      with True 1 have ih: "skip_dots p (i + 1) j \<longleftrightarrow> (\<exists>k. i + 1 \<le> k \<and> k < j \<and> p ! k \<noteq> CHR ''.'')"
        by simp
      have "(\<exists>k. i + 1 \<le> k \<and> k < j \<and> p ! k \<noteq> CHR ''.'') \<longleftrightarrow> (\<exists>k. i \<le> k \<and> k < j \<and> p ! k \<noteq> CHR ''.'')"
        (is "?A \<longleftrightarrow> ?B")
      proof
        assume ?A
        then obtain k where "i + 1 \<le> k" "k < j" "p ! k \<noteq> CHR ''.''" by blast
        then have "i \<le> k \<and> k < j \<and> p ! k \<noteq> CHR ''.''" by simp
        then show ?B by blast
      next
        assume ?B
        then obtain k where k: "i \<le> k" "k < j" "p ! k \<noteq> CHR ''.''" by blast
        with d have "k \<noteq> i" by auto
        with k have "i + 1 \<le> k \<and> k < j \<and> p ! k \<noteq> CHR ''.''" by simp
        then show ?A by blast
      qed
      with True d ih show ?thesis by (subst skip_dots.simps) simp
    qed
  qed
qed

text \<open>
  What \<^verbatim>\<open>os.path.splitext\<close> returns, stated without its indices: the two parts make up
  the path; an extension starts with a dot and contains no other dot and no slash; and
  there is an extension exactly when, behind the last slash, some character other than a
  dot is followed, later, by a dot.
\<close>

lemma splitext_spec:
  assumes "splitext p = (stem, ext)"
  shows "stem @ ext = p"
    and "ext \<noteq> [] \<Longrightarrow> hd ext = CHR ''.'' \<and> CHR ''.'' \<notin> set (tl ext) \<and> CHR ''/'' \<notin> set ext"
    and "ext \<noteq> [] \<longleftrightarrow>
          (\<exists>u c v b. p = u @ c # v @ CHR ''.'' # b \<and> c \<noteq> CHR ''.'' \<and>
             CHR ''/'' \<notin> set (c # v @ CHR ''.'' # b))"
proof -
  define s where "s = rfind p CHR ''/''"
  define d where "d = rfind p CHR ''.''"
  define cond where "cond \<longleftrightarrow> s < d \<and> skip_dots p (nat (s + 1)) (nat d)"
  have sp: "splitext p = (if cond then (take (nat d) p, drop (nat d) p) else (p, []))"
    by (simp add: splitext_def s_def d_def cond_def Let_def)
  have s_ge: "- 1 \<le> s"
    unfolding s_def by (rule rfind_ge)
  have slash: "int k \<le> s" if "k < length p" "p ! k = CHR ''/''" for k
    unfolding s_def using that by (rule rfind_last)
  have dot: "int k \<le> d" if "k < length p" "p ! k = CHR ''.''" for k
    unfolding d_def using that by (rule rfind_last)
  have no_slash: "CHR ''/'' \<notin> set (drop k p)" if "s < int k" for k
  proof
    assume "CHR ''/'' \<in> set (drop k p)"
    then obtain i where "i < length (drop k p)" "drop k p ! i = CHR ''/''"
      by (metis in_set_conv_nth)
    then have "k + i < length p" "p ! (k + i) = CHR ''/''"
      by auto
    then have "int (k + i) \<le> s" by (rule slash)
    with that show False by simp
  qed
  have decomp: "cond" if "p = u @ c # v @ CHR ''.'' # b" "c \<noteq> CHR ''.''"
    "CHR ''/'' \<notin> set (c # v @ CHR ''.'' # b)" for u c v b
  proof -
    let ?k = "length u"
    let ?j = "length u + 1 + length v"
    have pk: "p ! ?k = c" using that(1) by simp
    have "?j < length p" using that(1) by simp
    moreover have "p ! ?j = CHR ''.''"
      using that(1) by (simp add: nth_append)
    ultimately have jd: "int ?j \<le> d" by (rule dot)
    have sk: "s < int ?k"
    proof (rule ccontr)
      assume "\<not> s < int ?k"
      then have ks: "int ?k \<le> s" by simp
      then have "0 \<le> rfind p CHR ''/''" by (simp add: s_def)
      then obtain a b' where ab: "p = a @ CHR ''/'' # b'" "rfind p CHR ''/'' = int (length a)"
        using rfind_split by blast
      with ks have "?k \<le> length a" by (simp add: s_def)
      moreover have "length a < length p" "p ! length a = CHR ''/''"
        using ab(1) by simp_all
      ultimately have "length a - ?k < length (drop ?k p)" "drop ?k p ! (length a - ?k) = CHR ''/''"
        by simp_all
      then have "CHR ''/'' \<in> set (drop ?k p)"
        by (metis nth_mem)
      with that(1,3) show False by simp
    qed
    with jd have "s < d" by simp
    moreover have "nat (s + 1) \<le> ?k \<and> ?k < nat d \<and> p ! ?k \<noteq> CHR ''.''"
      using sk jd pk that(2) by auto
    then have "skip_dots p (nat (s + 1)) (nat d)"
      unfolding skip_dots_iff by blast
    ultimately show ?thesis by (simp add: cond_def)
  qed
  show "stem @ ext = p"
    using assms sp by (auto split: if_splits)
  show "ext \<noteq> [] \<longleftrightarrow>
          (\<exists>u c v b. p = u @ c # v @ CHR ''.'' # b \<and> c \<noteq> CHR ''.'' \<and>
             CHR ''/'' \<notin> set (c # v @ CHR ''.'' # b))"
  proof (cases cond)
    case False
    with assms sp have "ext = []" by simp
    with False decomp show ?thesis by blast
  next
    case True
    then have sd: "s < d" and sk: "skip_dots p (nat (s + 1)) (nat d)"
      by (simp_all add: cond_def)
    from sd s_ge have "0 \<le> rfind p CHR ''.''" by (simp add: d_def)
    then obtain a b where ab: "p = a @ CHR ''.'' # b" "CHR ''.'' \<notin> set b" "d = int (length a)"
      unfolding d_def using rfind_split by blast
    from True assms sp ab have ext: "ext = CHR ''.'' # b" by simp
    from sk obtain k where k: "nat (s + 1) \<le> k" "k < nat d" "p ! k \<noteq> CHR ''.''"
      unfolding skip_dots_iff by blast
    with ab have ka: "k < length a" by simp
    then have a: "a = take k a @ a ! k # drop (Suc k) a"
      by (rule id_take_nth_drop)
    have pk: "p ! k = a ! k" using ab(1) ka by (simp add: nth_append)
    from k(1) s_ge have "s < int k" by simp
    then have "CHR ''/'' \<notin> set (drop k p)" by (rule no_slash)
    moreover have "drop k p = a ! k # drop (Suc k) a @ CHR ''.'' # b"
      using ab(1) ka by (simp add: Cons_nth_drop_Suc)
    ultimately have "CHR ''/'' \<notin> set (a ! k # drop (Suc k) a @ CHR ''.'' # b)"
      by simp
    moreover have "p = take k a @ a ! k # drop (Suc k) a @ CHR ''.'' # b"
      using ab(1) a by (metis append.assoc append_Cons)
    ultimately show ?thesis
      using ext k(3) pk by auto
  qed
  show "hd ext = CHR ''.'' \<and> CHR ''.'' \<notin> set (tl ext) \<and> CHR ''/'' \<notin> set ext" if "ext \<noteq> []"
  proof -
    from that assms sp have c: cond by (auto split: if_splits)
    then have sd: "s < d" by (simp add: cond_def)
    from sd s_ge have "0 \<le> rfind p CHR ''.''" by (simp add: d_def)
    then obtain a b where ab: "p = a @ CHR ''.'' # b" "CHR ''.'' \<notin> set b" "d = int (length a)"
      unfolding d_def using rfind_split by blast
    from c assms sp ab have ext: "ext = CHR ''.'' # b" "ext = drop (length a) p" by simp_all
    from sd ab have "s < int (length a)" by simp
    then have "CHR ''/'' \<notin> set (drop (length a) p)" by (rule no_slash)
    with ext ab show ?thesis by simp
  qed
qed

text \<open>
  C7. The name is the prefix, the stem of the sanitized file name, an underscore, the
  time stamp, an underscore, eight hexadecimal digits, and the extension of the sanitized
  name, or \<^verbatim>\<open>.jpg\<close> when it has none.
  \<^item> Stem and extension make up the sanitized name; the extension, when there is one,
    starts with a dot and has no other dot and no slash; there is one exactly when, behind
    the last slash of the sanitized name, a character other than a dot is followed,
    later, by a dot.
  \<^item> The time stamp is the year in four decimal digits, the month, the day, a hyphen, the
    hour, the minute and the second, in two decimal digits each.
  \<^item> The eight hexadecimal digits denote the 32 leading bits of the random 128 bits.
  \<^item> Two calls at the same second for the same file name and prefix give different names
    whenever those 32 bits differ, that is, whenever their eight random digits differ.
\<close>

theorem unique_name_form:
  assumes "four_digit_year (utcnow en)"
  shows "\<exists>stem ext Y Mo D h mi s rnd.
           unique_name sf en original_name prefix =
             prefix @ stem @ ''_'' @ (Y @ Mo @ D @ ''-'' @ h @ mi @ s) @ ''_'' @ rnd @
             (if ext = [] then ''.jpg'' else ext) \<and>
           splitext (sf original_name) = (stem, ext) \<and>
           stem @ ext = sf original_name \<and>
           (ext \<noteq> [] \<longrightarrow> hd ext = CHR ''.'' \<and> CHR ''.'' \<notin> set (tl ext) \<and> CHR ''/'' \<notin> set ext) \<and>
           (ext \<noteq> [] \<longleftrightarrow>
              (\<exists>u c v b. sf original_name = u @ c # v @ CHR ''.'' # b \<and> c \<noteq> CHR ''.'' \<and>
                 CHR ''/'' \<notin> set (c # v @ CHR ''.'' # b))) \<and>
           Y @ Mo @ D @ ''-'' @ h @ mi @ s = strftime (utcnow en) \<and>
           length Y = 4 \<and> length Mo = 2 \<and> length D = 2 \<and>
           length h = 2 \<and> length mi = 2 \<and> length s = 2 \<and>
           set (Y @ Mo @ D @ h @ mi @ s) \<subseteq> set ''0123456789'' \<and>
           dec_value Y = year (utcnow en) \<and> dec_value Mo = month (utcnow en) \<and>
           dec_value D = day (utcnow en) \<and> dec_value h = hour (utcnow en) \<and>
           dec_value mi = minute (utcnow en) \<and> dec_value s = second (utcnow en) \<and>
           rnd = take 8 (uuid_hex (uuid4 en)) \<and> length rnd = 8 \<and>
           set rnd \<subseteq> set ''0123456789abcdef'' \<and>
           hex_value rnd = unat (uuid4 en) div 2 ^ 96 \<and>
           (utcnow en' = utcnow en \<and>
            (unat (uuid4 en') div 2 ^ 96 \<noteq> unat (uuid4 en) div 2 ^ 96 \<or>
             take 8 (uuid_hex (uuid4 en')) \<noteq> rnd) \<longrightarrow>
              unique_name sf en' original_name prefix \<noteq> unique_name sf en original_name prefix)"
proof -
  obtain stem ext where se: "splitext (sf original_name) = (stem, ext)"
    by (cases "splitext (sf original_name)")
  note sx = splitext_spec [OF se]
  obtain Y Mo D h mi s where ts: "strftime (utcnow en) = Y @ Mo @ D @ ''-'' @ h @ mi @ s"
    and tl: "length Y = 4" "length Mo = 2" "length D = 2" "length h = 2" "length mi = 2" "length s = 2"
    and td: "set (Y @ Mo @ D @ h @ mi @ s) \<subseteq> set ''0123456789''"
    and tv: "dec_value Y = year (utcnow en)" "dec_value Mo = month (utcnow en)"
      "dec_value D = day (utcnow en)" "dec_value h = hour (utcnow en)"
      "dec_value mi = minute (utcnow en)" "dec_value s = second (utcnow en)"
    using strftime_fields [OF assms] by blast
  let ?rnd = "take 8 (uuid_hex (uuid4 en))"
  have name: "unique_name sf e original_name prefix =
      prefix @ stem @ ''_'' @ strftime (utcnow e) @ ''_'' @ take 8 (uuid_hex (uuid4 e)) @
      (if ext = [] then ''.jpg'' else ext)" for e
    using se by (simp add: unique_name_def)
  have n1: "unique_name sf en original_name prefix =
      prefix @ stem @ ''_'' @ (Y @ Mo @ D @ ''-'' @ h @ mi @ s) @ ''_'' @ ?rnd @
      (if ext = [] then ''.jpg'' else ext)"
    unfolding name ts ..
  have rl: "length ?rnd = 8"
    by (simp add: take8_uuid_hex length_hex_str)
  have rs: "set ?rnd \<subseteq> set ''0123456789abcdef''"
    unfolding take8_uuid_hex by (rule hex_str_digits)
  have rv: "hex_value ?rnd = unat (uuid4 en) div 2 ^ 96"
    by (rule hex_value_take8)
  have uniq: "unique_name sf en' original_name prefix \<noteq> unique_name sf en original_name prefix"
    if "utcnow en' = utcnow en"
      "unat (uuid4 en') div 2 ^ 96 \<noteq> unat (uuid4 en) div 2 ^ 96 \<or> take 8 (uuid_hex (uuid4 en')) \<noteq> ?rnd"
  proof -
    from that(2) have "take 8 (uuid_hex (uuid4 en')) \<noteq> ?rnd"
      using hex_value_take8 [of "uuid4 en'"] rv by auto
    with that(1) show ?thesis by (simp add: name)
  qed
  have x2: "ext \<noteq> [] \<longrightarrow> hd ext = CHR ''.'' \<and> CHR ''.'' \<notin> set (tl ext) \<and> CHR ''/'' \<notin> set ext"
    using sx(2) by blast
  have u: "utcnow en' = utcnow en \<and>
            (unat (uuid4 en') div 2 ^ 96 \<noteq> unat (uuid4 en) div 2 ^ 96 \<or>
             take 8 (uuid_hex (uuid4 en')) \<noteq> ?rnd) \<longrightarrow>
              unique_name sf en' original_name prefix \<noteq> unique_name sf en original_name prefix"
    using uniq by blast
  note body = n1 se sx(1) x2 sx(3) ts [symmetric] tl td tv refl [of ?rnd] rl rs rv u
  show ?thesis
    by (intro exI conjI) (rule body)+
qed

text \<open>
  The labeled copy of \<^verbatim>\<open>cat.png\<close> on 2 January 2024 at 03:04:05, and a file without
  extension.
\<close>

theorem unique_name_form_witness:
  "four_digit_year stub_now \<and>
   unique_name (\<lambda>s. s) \<lparr>utcnow = stub_now, uuid4 = 0\<rparr> ''cat.png'' ''labeled_'' =
     ''labeled_cat_20240102-030405_00000000.png'' \<and>
   unique_name (\<lambda>s. s) \<lparr>utcnow = stub_now, uuid4 = 0\<rparr> ''photo'' [] =
     ''photo_20240102-030405_00000000.jpg'' \<and>
   unique_name (\<lambda>s. s) \<lparr>utcnow = stub_now, uuid4 = 2 ^ 96\<rparr> ''cat.png'' ''labeled_'' \<noteq>
   unique_name (\<lambda>s. s) \<lparr>utcnow = stub_now, uuid4 = 0\<rparr> ''cat.png'' ''labeled_''"
proof -
  let ?en = "\<lparr>utcnow = stub_now, uuid4 = 0\<rparr>"
  let ?en' = "\<lparr>utcnow = stub_now, uuid4 = 2 ^ 96\<rparr>"
  have v: "four_digit_year (utcnow ?en)"
    by (simp add: four_digit_year_def stub_now_def)
  have t: "strftime stub_now = ''20240102-030405''"
    by (simp add: strftime_def stub_now_def zero_pad_def str_nat.simps digit_char_def)
  have "replicate 8 CHR ''0'' = ''00000000''"
    by (simp add: numeral_eq_Suc)
  then have r: "take 8 (uuid_hex 0) = ''00000000''"
    by (simp add: take8_uuid_hex hex_str_zero)
  have a: "unique_name (\<lambda>s. s) ?en ''cat.png'' ''labeled_'' = ''labeled_cat_20240102-030405_00000000.png''"
    by (simp add: unique_name_def splitext_def skip_dots.simps t r)
  have b: "unique_name (\<lambda>s. s) ?en ''photo'' [] = ''photo_20240102-030405_00000000.jpg''"
    by (simp add: unique_name_def splitext_def skip_dots.simps t r)
  have s: "utcnow ?en' = utcnow ?en"
    by simp
  have d: "unat (uuid4 ?en') div 2 ^ 96 \<noteq> unat (uuid4 ?en) div 2 ^ 96"
    by simp
  from unique_name_form [OF v, of "\<lambda>s. s" "''cat.png''" "''labeled_''" ?en'] s d
  have "unique_name (\<lambda>s. s) ?en' ''cat.png'' ''labeled_'' \<noteq> unique_name (\<lambda>s. s) ?en ''cat.png'' ''labeled_''"
    by blast
  with v a b show ?thesis
    by simp
qed

subsection \<open>The normalizer\<close>

lemma mode_reindex: "pixels_mode (reindex is ps) = pixels_mode ps"
  by (cases ps) simp_all

lemma mode_exif_transpose: "mode (exif_transpose img) = mode img"
  by (simp add: exif_transpose_def mode_def transpose_im_def mode_reindex split: option.splits)

lemma exif_transpose_idem: "exif_transpose (exif_transpose img) = exif_transpose img"
  by (simp add: exif_transpose_def orientation_method_def split: option.splits)

lemma pil_auto_prepare_RGB: "mode img = RGB \<Longrightarrow> pil_auto_prepare img = exif_transpose img"
proof -
  assume "mode img = RGB"
  then have "mode (exif_transpose img) = RGB"
    by (simp add: mode_exif_transpose)
  then show ?thesis
    by (cases "im_data (exif_transpose img)") (simp_all add: pil_auto_prepare_def mode_def)
qed

lemma mode_pil_auto_prepare: "mode (pil_auto_prepare img) = RGB"
proof (cases "im_data (exif_transpose img)")
  case (PixL x)
  then show ?thesis by (simp add: pil_auto_prepare_def mode_def convert_RGB_def)
next
  case (PixLA x)
  then show ?thesis by (simp add: pil_auto_prepare_def mode_def convert_RGB_def)
next
  case (PixRGB x)
  then show ?thesis by (simp add: pil_auto_prepare_def mode_def)
next
  case (PixRGBA x)
  then show ?thesis by (simp add: pil_auto_prepare_def mode_def flatten_white_def Let_def)
qed

lemma BLEND_transparent: "BLEND 0 255 v = 255"
  by (simp add: BLEND_def DIV255_def)

lemma BLEND_opaque: "BLEND 255 c v = v"
proof -
  have "unat v < 256"
    using unsigned_less [of v, where 'a = nat] by simp
  then have "DIV255 (unat v * 255) = unat v"
    unfolding DIV255_def Let_def by arith
  then show ?thesis
    by (simp add: BLEND_def)
qed

text \<open>
  What holds of the \<^verbatim>\<open>RGBA\<close> branch: the result is an \<^verbatim>\<open>RGB\<close> image, pixel \<open>i\<close> of which
  is pixel \<open>i\<close> of the oriented source blended over white; a fully transparent pixel
  becomes white, a fully opaque one keeps its colour.
\<close>

lemma pil_auto_prepare_RGBA:
  assumes "im_data (exif_transpose img) = PixRGBA ps"
    and "length ps = fst (im_size (exif_transpose img)) * snd (im_size (exif_transpose img))"
  shows "\<exists>qs. im_data (pil_auto_prepare img) = PixRGB qs \<and> length qs = length ps \<and>
           (\<forall>i < length ps. \<forall>r g b.
              (ps ! i = (r, g, b, 0) \<longrightarrow> qs ! i = (255, 255, 255)) \<and>
              (ps ! i = (r, g, b, 255) \<longrightarrow> qs ! i = (r, g, b)))"
  using assms
  by (simp add: pil_auto_prepare_def mode_def flatten_white_def paste_pixel_def Let_def
      BLEND_transparent BLEND_opaque)

text \<open>
  C3 at a grey image with alpha channel (mode \<^verbatim>\<open>LA\<close>, as a grey PNG with transparency
  decodes): the branch that converts every mode other than \<^verbatim>\<open>RGB\<close> and \<^verbatim>\<open>RGBA\<close> runs
  first and drops the alpha channel, so the fully transparent pixel keeps its grey value 0
  and comes out black, not white.
\<close>

theorem pil_auto_prepare_LA_not_white:
  "pil_auto_prepare \<lparr>im_size = (1, 1), im_data = PixLA [(0, 0)], exif_orientation = None\<rparr> =
     \<lparr>im_size = (1, 1), im_data = PixRGB [(0, 0, 0)], exif_orientation = None\<rparr>"
  by (simp add: pil_auto_prepare_def exif_transpose_def orientation_method_def mode_def convert_RGB_def)

text \<open>
  C4. For an image of mode \<^verbatim>\<open>RGB\<close>, normalizing the normalized image returns it
  unchanged: the same size, the same pixels, the same metadata. The first normalization
  is the EXIF transposition alone.
\<close>

theorem pil_auto_prepare_idempotent:
  assumes "mode img = RGB"
  shows "pil_auto_prepare (pil_auto_prepare img) = pil_auto_prepare img \<and>
         pil_auto_prepare img = exif_transpose img \<and>
         mode (pil_auto_prepare img) = RGB"
proof -
  have 1: "pil_auto_prepare img = exif_transpose img"
    using assms by (rule pil_auto_prepare_RGB)
  have "mode (exif_transpose img) = RGB"
    using assms by (simp add: mode_exif_transpose)
  then have "pil_auto_prepare (exif_transpose img) = exif_transpose (exif_transpose img)"
    by (rule pil_auto_prepare_RGB)
  with 1 show ?thesis
    using assms by (simp add: exif_transpose_idem mode_exif_transpose)
qed

text \<open>A 2 by 1 image to be rotated by 180 degrees: the second pass changes nothing.\<close>

theorem pil_auto_prepare_idempotent_witness:
  "mode (stub_image\<lparr>exif_orientation := Some 3\<rparr>) = RGB \<and>
   pil_auto_prepare (stub_image\<lparr>exif_orientation := Some 3\<rparr>) =
     \<lparr>im_size = (2, 1), im_data = PixRGB [(40, 50, 60), (10, 20, 30)], exif_orientation = None\<rparr> \<and>
   pil_auto_prepare (pil_auto_prepare (stub_image\<lparr>exif_orientation := Some 3\<rparr>)) =
     pil_auto_prepare (stub_image\<lparr>exif_orientation := Some 3\<rparr>)"
proof -
  have m: "mode (stub_image\<lparr>exif_orientation := Some 3\<rparr>) = RGB"
    by (simp add: stub_image_def mode_def)
  have e: "exif_transpose (stub_image\<lparr>exif_orientation := Some 3\<rparr>) =
      \<lparr>im_size = (2, 1), im_data = PixRGB [(40, 50, 60), (10, 20, 30)], exif_orientation = None\<rparr>"
    by (simp add: stub_image_def exif_transpose_def orientation_method_def transpose_im_def
        source_indices_def upt_rec)
  note t = pil_auto_prepare_idempotent [OF m]
  from t have a: "pil_auto_prepare (pil_auto_prepare (stub_image\<lparr>exif_orientation := Some 3\<rparr>)) =
      pil_auto_prepare (stub_image\<lparr>exif_orientation := Some 3\<rparr>)"
    by blast
  from t e have b: "pil_auto_prepare (stub_image\<lparr>exif_orientation := Some 3\<rparr>) =
      \<lparr>im_size = (2, 1), im_data = PixRGB [(40, 50, 60), (10, 20, 30)], exif_orientation = None\<rparr>"
    by (simp only:)
  from m b a show ?thesis
    by blast
qed

subsection \<open>Detection\<close>

lemma float_lit_quarter: "float_lit 0.25 = Finite (1 / 4)"
  by (simp add: float_eval)

lemma float_lit_half: "float_lit 0.5 = Finite (1 / 2)"
  by (simp add: float_eval)

lemma float_lit_99_1: "float_lit 99.1 = Finite (3486771274003251 / 35184372088832)"
  by (simp add: float_eval)

lemma label_text_99_1:
  "label_text ''SampleObject'' (Some (PyFloat (Finite (3486771274003251 / 35184372088832)))) =
     ''SampleObject (99.1%)''"
  by (simp add: label_text_def float_eval repr_eval)

text \<open>
  C2. With \<^verbatim>\<open>DRY_RUN\<close> set, the detection stage returns, for every image and in every
  state, one label \<^verbatim>\<open>SampleObject\<close> of confidence 99.1 with one instance of confidence
  99.1 whose box is \<open>(0.25, 0.25, 0.5, 0.5)\<close>. It cannot fail: the result is never an
  error, the labeling service is not called and the state is left as it was. The numbers
  are the floats the literals denote: a quarter and a half exactly, and the double nearest
  to 99.1, which the label text shows as \<open>99.1\<close>.
\<close>

theorem detect_dry_run:
  assumes "DRY_RUN env"
  shows "detect env image_bytes st =
           (Inr [\<lparr>Name = Some ''SampleObject'', Confidence = Some (PyFloat (float_lit 99.1)),
                  Instances = Some
                    [\<lparr>BoundingBox = Some [(''Left'', float_lit 0.25), (''Top'', float_lit 0.25),
                                          (''Width'', float_lit 0.5), (''Height'', float_lit 0.5)],
                      inst_Confidence = Some (PyFloat (float_lit 99.1))\<rparr>]\<rparr>], st) \<and>
         float_lit 0.25 = Finite (1 / 4) \<and> float_lit 0.5 = Finite (1 / 2) \<and>
         float_lit 99.1 = Finite (3486771274003251 / 35184372088832) \<and>
         label_text ''SampleObject'' (Some (PyFloat (float_lit 99.1))) = ''SampleObject (99.1%)''"
proof -
  have 1: "detect env image_bytes st =
           (Inr [\<lparr>Name = Some ''SampleObject'', Confidence = Some (PyFloat (float_lit 99.1)),
                  Instances = Some
                    [\<lparr>BoundingBox = Some [(''Left'', float_lit 0.25), (''Top'', float_lit 0.25),
                                          (''Width'', float_lit 0.5), (''Height'', float_lit 0.5)],
                      inst_Confidence = Some (PyFloat (float_lit 99.1))\<rparr>]\<rparr>], st)"
    using assms by (simp add: detect_def sample_labels_def)
  have 2: "label_text ''SampleObject'' (Some (PyFloat (float_lit 99.1))) = ''SampleObject (99.1%)''"
    unfolding float_lit_99_1 by (rule label_text_99_1)
  show ?thesis
    by (intro conjI) (rule 1 float_lit_quarter float_lit_half float_lit_99_1 2)+
qed

theorem detect_dry_run_witness:
  "DRY_RUN (stub_env\<lparr>DRY_RUN := True\<rparr>) \<and>
   detect (stub_env\<lparr>DRY_RUN := True\<rparr>) [1, 2, 3] empty_state =
     (Inr [\<lparr>Name = Some ''SampleObject'', Confidence = Some (PyFloat (float_lit 99.1)),
            Instances = Some
              [\<lparr>BoundingBox = Some [(''Left'', float_lit 0.25), (''Top'', float_lit 0.25),
                                    (''Width'', float_lit 0.5), (''Height'', float_lit 0.5)],
                inst_Confidence = Some (PyFloat (float_lit 99.1))\<rparr>]\<rparr>], empty_state)"
proof -
  have d: "DRY_RUN (stub_env\<lparr>DRY_RUN := True\<rparr>)"
    by simp
  from d detect_dry_run [OF d, of "[1, 2, 3]" empty_state] show ?thesis
    by blast
qed

lemma calls_append: "calls (xs @ ys) = calls xs @ calls ys"
  by (induction xs rule: calls.induct) simp_all

lemma annotate_trace:
  "annotate env pil a b labels st = (r, st') \<Longrightarrow>
   calls (trace st') = calls (trace st) \<and> (\<forall>x y ls. r = Rendered x y ls \<longrightarrow> ls = labels)"
  by (auto simp: annotate_def Let_def write_file_def failed_save_def calls_append
      split: sum.splits save_result.splits option.splits py_error.splits)

text \<open>
  C8. In the remote configuration every request sent to the labeling service during an
  upload asks for at most 10 labels of confidence at least 70; and when the upload answers
  with the result page, its labels are the list \<^verbatim>\<open>Labels\<close> of the service's response to
  such a request, as it came (the empty list when the response has no such entry).
\<close>

theorem upload_remote_request:
  assumes "\<not> DRY_RUN env" and "upload env w req st = (r, st')"
  shows "\<exists>new. calls (trace st') = calls (trace st) @ new \<and>
           (\<forall>rq \<in> set new. MaxLabels rq = 10 \<and> MinConfidence rq = 70) \<and>
           (\<forall>x y labels. r = Rendered x y labels \<longrightarrow>
              (\<exists>rq \<in> set new. \<exists>resp. detect_labels env rq = Inr resp \<and>
                 labels = (case Labels resp of None \<Rightarrow> [] | Some ls \<Rightarrow> ls)))"
proof (cases "files_file req")
  case None
  with assms show ?thesis by (auto simp: upload_def)
next
  case (Some upl)
  show ?thesis
  proof (cases "filename upl = [] \<or> \<not> allowed_file (filename upl)")
    case True
    with Some assms show ?thesis by (auto simp: upload_def split: if_splits)
  next
    case valid: False
    define save_path where
      "save_path = path_join UPLOAD_FOLDER (unique_name (secure_filename env) (first_name w) (filename upl) [])"
    show ?thesis
    proof (cases "image_open env (stream upl)")
      case (Inl e)
      with Some valid assms show ?thesis by (auto simp: upload_def Let_def)
    next
      case (Inr opened)
      show ?thesis
      proof (cases "image_save env save_path (pil_auto_prepare opened)")
        case (SaveFailed e residue)
        with Some valid Inr assms show ?thesis
          by (auto simp: upload_def Let_def save_path_def failed_save_def write_file_def calls_append
              split: option.splits)
      next
        case (Saved b)
        define rq where "rq = \<lparr>Image_Bytes = b, MaxLabels = 10, MinConfidence = 70\<rparr>"
        define st2 where
          "st2 = (write_file save_path b st)\<lparr>trace := trace (write_file save_path b st) @ [Called rq]\<rparr>"
        have c2: "calls (trace st2) = calls (trace st) @ [rq]"
          by (simp add: st2_def write_file_def calls_append)
        show ?thesis
        proof (cases "detect_labels env rq")
          case e: (Inl e)
          with Some valid Inr Saved assms have "r = Plain (''AWS Rekognition error: '' @ aws_message e) 500"
            and "st' = st2"
            by (auto simp: upload_def Let_def save_path_def rq_def st2_def detect_def write_file_def)
          with c2 show ?thesis by (simp add: rq_def)
        next
          case resp: (Inr resp)
          define labels where "labels = (case Labels resp of None \<Rightarrow> [] | Some ls \<Rightarrow> ls)"
          from Some valid Inr Saved resp assms
          have "annotate env (pil_auto_prepare opened)
                  (unique_name (secure_filename env) (first_name w) (filename upl) [])
                  (unique_name (secure_filename env) (second_name w) (filename upl) ''labeled_'')
                  labels st2 = (r, st')"
            by (auto simp: upload_def Let_def save_path_def rq_def st2_def labels_def detect_def write_file_def)
          from annotate_trace [OF this] c2 resp show ?thesis
            by (auto simp: rq_def labels_def)
        qed
      qed
    qed
  qed
qed

text \<open>
  A remote service that answers with one label without instances: the result page carries
  that label.
\<close>

theorem upload_remote_request_witness:
  "\<exists>r st' new.
     upload (stub_env\<lparr>detect_labels := \<lambda>rq. Inr \<lparr>Labels = Some [\<lparr>Name = Some ''Cat'', Confidence = Some (PyFloat (Finite 90)), Instances = None\<rparr>]\<rparr>\<rparr>)
       stub_world (upload_of ''cat.jpg'' [7]) empty_state = (r, st') \<and>
     (\<exists>x y. r = Rendered x y [\<lparr>Name = Some ''Cat'', Confidence = Some (PyFloat (Finite 90)), Instances = None\<rparr>]) \<and>
     calls (trace st') = calls (trace empty_state) @ new \<and>
     new = [\<lparr>Image_Bytes = [1, 2, 3], MaxLabels = 10, MinConfidence = 70\<rparr>]"
proof -
  let ?lbl = "\<lparr>Name = Some ''Cat'', Confidence = Some (PyFloat (Finite 90)), Instances = None\<rparr>"
  let ?env = "stub_env\<lparr>detect_labels := \<lambda>rq. Inr \<lparr>Labels = Some [?lbl]\<rparr>\<rparr>"
  obtain r st' where u: "upload ?env stub_world (upload_of ''cat.jpg'' [7]) empty_state = (r, st')"
    by (cases "upload ?env stub_world (upload_of ''cat.jpg'' [7]) empty_state")
  have d: "\<not> DRY_RUN ?env"
    by (simp add: stub_env_def)
  have a: "allowed_file ''cat.jpg''"
    by (simp add: allowed_file_def after_last_dot_def lower_def lower_char_def ALLOWED_EXTENSIONS_def)
  have rr: "\<exists>x y. r = Rendered x y [?lbl]" and cc: "calls (trace st') = [\<lparr>Image_Bytes = [1, 2, 3], MaxLabels = 10, MinConfidence = 70\<rparr>]"
    using u a
    by (auto simp: upload_def upload_of_def stub_env_def empty_state_def Let_def write_file_def
        detect_def annotate_def label_instances_def)
  from upload_remote_request [OF d u] obtain new where
    n: "calls (trace st') = calls (trace empty_state) @ new"
      "\<forall>rq \<in> set new. MaxLabels rq = 10 \<and> MinConfidence rq = 70"
    by blast
  from n cc have "new = [\<lparr>Image_Bytes = [1, 2, 3], MaxLabels = 10, MinConfidence = 70\<rparr>]"
    by (simp add: empty_state_def)
  with u rr n show ?thesis
    by blast
qed

subsection \<open>Failures\<close>

text \<open>
  C5. An upload with a non-empty file name of an allowed extension whose bytes the
  decoder rejects is answered with the status 400 and the message of the decoder, and the
  state is the one before the request: no file is written (neither the original nor the
  labeled one) and the labeling service is not called.
\<close>

theorem upload_decode_error:
  assumes "files_file req = Some file" and "filename file \<noteq> []"
    and "allowed_file (filename file)"
    and "image_open env (stream file) = Inl e"
  shows "upload env w req st = (Plain (''Image processing error: '' @ e) 400, st)"
  using assms by (simp add: upload_def Let_def)

theorem upload_decode_error_witness:
  "allowed_file ''notes.jpg'' \<and>
   image_open stub_env [] = Inl ''cannot identify image file'' \<and>
   upload stub_env stub_world (upload_of ''notes.jpg'' []) empty_state =
     (Plain (''Image processing error: '' @ ''cannot identify image file'') 400, empty_state)"
proof -
  have f: "files_file (upload_of ''notes.jpg'' []) = Some \<lparr>filename = ''notes.jpg'', stream = []\<rparr>"
    by (simp add: upload_of_def)
  have n: "filename \<lparr>filename = ''notes.jpg'', stream = []\<rparr> \<noteq> []"
    by simp
  have a: "allowed_file (filename \<lparr>filename = ''notes.jpg'', stream = []\<rparr>)"
    by (simp add: allowed_file_def after_last_dot_def lower_def lower_char_def ALLOWED_EXTENSIONS_def)
  have o: "image_open stub_env (stream \<lparr>filename = ''notes.jpg'', stream = []\<rparr>) = Inl ''cannot identify image file''"
    by (simp add: stub_env_def)
  from upload_decode_error [OF f n a o, of stub_world empty_state] a o show ?thesis
    by simp
qed

text \<open>
  C6. In the remote configuration, when the image decodes, the normalized original is saved
  and the labeling service answers the request with an error, the upload is answered with
  the status 500 and the message of the error; the one file written is the normalized
  original, under the first name, before the service is called with the bytes of that
  file; nothing is written under the second name or afterwards.
\<close>

theorem upload_detection_error:
  assumes "files_file req = Some file" and "filename file \<noteq> []"
    and "allowed_file (filename file)"
    and "image_open env (stream file) = Inr opened"
    and "save_path = path_join UPLOAD_FOLDER (unique_name (secure_filename env) (first_name w) (filename file) [])"
    and "image_save env save_path (pil_auto_prepare opened) = Saved b"
    and "\<not> DRY_RUN env"
    and "rq = \<lparr>Image_Bytes = b, MaxLabels = 10, MinConfidence = 70\<rparr>"
    and "detect_labels env rq = Inl e"
  shows "upload env w req st =
           (Plain (''AWS Rekognition error: '' @ aws_message e) 500,
            st\<lparr>files := (files st)(save_path \<mapsto> b), trace := trace st @ [Wrote save_path b, Called rq]\<rparr>)"
  using assms by (simp add: upload_def Let_def write_file_def detect_def)

theorem upload_detection_error_witness:
  "\<exists>save_path.
     upload stub_env stub_world (upload_of ''cat.jpg'' [7]) empty_state =
       (Plain (''AWS Rekognition error: '' @ ''Rate exceeded'') 500,
        \<lparr>files = [save_path \<mapsto> [1, 2, 3]],
         trace = [Wrote save_path [1, 2, 3],
                  Called \<lparr>Image_Bytes = [1, 2, 3], MaxLabels = 10, MinConfidence = 70\<rparr>]\<rparr>)"
proof -
  let ?file = "\<lparr>filename = ''cat.jpg'', stream = [7]\<rparr>"
  let ?path = "path_join UPLOAD_FOLDER (unique_name (secure_filename stub_env) (first_name stub_world) (filename ?file) [])"
  let ?rq = "\<lparr>Image_Bytes = [1, 2, 3], MaxLabels = 10, MinConfidence = 70\<rparr>"
  have f: "files_file (upload_of ''cat.jpg'' [7]) = Some ?file"
    by (simp add: upload_of_def)
  have n: "filename ?file \<noteq> []"
    by simp
  have a: "allowed_file (filename ?file)"
    by (simp add: allowed_file_def after_last_dot_def lower_def lower_char_def ALLOWED_EXTENSIONS_def)
  have o: "image_open stub_env (stream ?file) = Inr stub_image"
    by (simp add: stub_env_def)
  have s: "image_save stub_env ?path (pil_auto_prepare stub_image) = Saved [1, 2, 3]"
    by (simp add: stub_env_def)
  have d: "\<not> DRY_RUN stub_env"
    by (simp add: stub_env_def)
  have l: "detect_labels stub_env ?rq = Inl throttled"
    by (simp add: stub_env_def)
  have m: "aws_message throttled = ''Rate exceeded''"
    by (simp add: aws_message_def throttled_def)
  from upload_detection_error [OF f n a o refl s d refl l, of empty_state] m
  have "upload stub_env stub_world (upload_of ''cat.jpg'' [7]) empty_state =
       (Plain (''AWS Rekognition error: '' @ ''Rate exceeded'') 500,
        \<lparr>files = [?path \<mapsto> [1, 2, 3]], trace = [Wrote ?path [1, 2, 3], Called ?rq]\<rparr>)"
    by (simp add: empty_state_def)
  then show ?thesis
    by blast
qed

end
